theory Spec2Isabelle
  imports Complex_Main
begin

section \<open>Data model\<close>

text \<open>
  A JavaScript \<^verbatim>\<open>Error\<close> is its message. Times and durations are JavaScript numbers;
  PlayerCore only passes them along, so they are reals here.
\<close>

datatype js_error = Error (message: string)

datatype lifecycle = Idle | Loading | Ready | Seeking | Errored

datatype track = Track (track_id: string) (codec: string)

record media_info =
  mi_duration :: real
  format :: string
  mimeType :: string
  metadata :: "(string \<times> string) list"
  hasVideo :: bool
  hasAudio :: bool
  hasSubtitles :: bool

record player_state =
  state :: lifecycle
  duration :: "real option"
  currentTime :: real
  isPlaying :: bool
  seeking :: bool
  mediaInfo :: "media_info option"
  tracks :: "track list \<times> track list \<times> track list"
  error :: "js_error option"

record track_switch_result =
  warningMessage :: string
  videoSupported :: bool
  audioSupported :: bool

text \<open>The payloads of \<^verbatim>\<open>PlayerEventMap\<close> for the events PlayerCore emits.\<close>

datatype event =
    Ev_loadstart
  | Ev_loadedmetadata media_info
  | Ev_loadeddata
  | Ev_canplay
  | Ev_canplaythrough
  | Ev_play
  | Ev_playing
  | Ev_pause
  | Ev_seeking real
  | Ev_seeked real
  | Ev_error js_error
  | Ev_warning string

section \<open>StateFacade\<close>

text \<open>
  Modelled from the spec: the class \<^verbatim>\<open>StateFacade\<close> (\<^verbatim>\<open>./state-facade\<close>) is imported by
  PlayerCore as a type only. The spec (sections 3 and 4.1) gives it the player state with the
  fields above, \<^verbatim>\<open>reset()\<close> restoring the idle defaults and clearing \<^verbatim>\<open>error\<close>, and a family of
  total, synchronous \<^verbatim>\<open>update*\<close> setters, each mutating one logical facet of the state and
  notifying the subscribers with the new snapshot; every update, \<^verbatim>\<open>reset()\<close> included, is one
  replace-and-notify step (section 5). The facade is the current state together with the
  snapshots handed to subscribers so far, oldest first. The idle defaults are: no duration,
  time zero, not playing, not seeking, no media info, no tracks, no error. The seeking flag
  is a facet of its own; the error facet carries the lifecycle tag \<^verbatim>\<open>error\<close> with the error.
  The spec's player state has no field for the two arguments of \<^verbatim>\<open>updateReadyState\<close>.
\<close>

record state_facade =
  cur :: player_state
  notified :: "player_state list"

definition idle_state :: player_state where
  "idle_state = \<lparr>state = Idle, duration = None, currentTime = 0, isPlaying = False,
     seeking = False, mediaInfo = None, tracks = ([], [], []), error = None\<rparr>"

definition setState :: "player_state \<Rightarrow> state_facade \<Rightarrow> state_facade" where
  "setState s f = \<lparr>cur = s, notified = notified f @ [s]\<rparr>"

definition getState :: "state_facade \<Rightarrow> player_state" where
  "getState f = cur f"

definition reset :: "state_facade \<Rightarrow> state_facade" where
  "reset f = setState idle_state f"

definition updateLoadingState :: "state_facade \<Rightarrow> state_facade" where
  "updateLoadingState f = setState ((cur f)\<lparr>state := Loading\<rparr>) f"

definition updateDuration :: "real \<Rightarrow> state_facade \<Rightarrow> state_facade" where
  "updateDuration d f = setState ((cur f)\<lparr>duration := Some d\<rparr>) f"

definition updateMediaInfo :: "media_info \<Rightarrow> state_facade \<Rightarrow> state_facade" where
  "updateMediaInfo mi f = setState ((cur f)\<lparr>mediaInfo := Some mi\<rparr>) f"

definition updateTracks ::
  "track list \<Rightarrow> track list \<Rightarrow> track list \<Rightarrow> state_facade \<Rightarrow> state_facade" where
  "updateTracks v a s f = setState ((cur f)\<lparr>tracks := (v, a, s)\<rparr>) f"

definition updateReadyState :: "bool \<Rightarrow> bool \<Rightarrow> state_facade \<Rightarrow> state_facade" where
  "updateReadyState canPlay canPlayThrough f = setState ((cur f)\<lparr>state := Ready\<rparr>) f"

definition updatePlaybackState :: "bool \<Rightarrow> state_facade \<Rightarrow> state_facade" where
  "updatePlaybackState playing f = setState ((cur f)\<lparr>isPlaying := playing\<rparr>) f"

definition updateSeekingState :: "bool \<Rightarrow> state_facade \<Rightarrow> state_facade" where
  "updateSeekingState b f = setState ((cur f)\<lparr>seeking := b\<rparr>) f"

definition updateTime :: "real \<Rightarrow> state_facade \<Rightarrow> state_facade" where
  "updateTime t f = setState ((cur f)\<lparr>currentTime := t\<rparr>) f"

definition updateError :: "js_error \<Rightarrow> state_facade \<Rightarrow> state_facade" where
  "updateError e f = setState ((cur f)\<lparr>state := Errored, error := Some e\<rparr>) f"

section \<open>The collaborators of PlayerCore\<close>

text \<open>
  \<^verbatim>\<open>PlaybackController\<close> is imported as a type only; it is a parameter: a record of its
  methods over a controller state \<open>'c\<close> of its own. A call that can throw or reject returns
  the error, if any, with the controller's new state. \<^verbatim>\<open>getCurrentTime\<close> reads that state.
\<close>

record 'c playback_controller =
  pc_play :: "'c \<Rightarrow> js_error option \<times> 'c"
  pc_pause :: "'c \<Rightarrow> js_error option \<times> 'c"
  pc_seek :: "real \<Rightarrow> 'c \<Rightarrow> js_error option \<times> 'c"
  pc_getCurrentTime :: "'c \<Rightarrow> real"
  pc_setDuration :: "real \<Rightarrow> 'c \<Rightarrow> 'c"

text \<open>
  What PlayerCore owns between calls: the facade, the events passed to \<^verbatim>\<open>emit\<close> so far
  (oldest first), and the controller's state. \<^verbatim>\<open>logger.error\<close> writes to the console only
  and is left out.

  The statements of a method run one after the other, so a listener called by \<^verbatim>\<open>emit\<close>
  sees the state that the setters before it have left. The trace keeps that order: it is
  the one sequence of everything told to the outside, each snapshot a setter notified and
  each event emitted, in the order of the statements that told it.
\<close>

datatype observation = Notified player_state | Emitted event

record 'c world =
  facade :: state_facade
  events :: "event list"
  trace :: "observation list"
  ctrl :: 'c

definition emit :: "event \<Rightarrow> 'c world \<Rightarrow> 'c world" where
  "emit ev w = w\<lparr>events := events w @ [ev], trace := trace w @ [Emitted ev]\<rparr>"

text \<open>A call on the facade: the snapshots it notifies go to the trace.\<close>

definition upd :: "(state_facade \<Rightarrow> state_facade) \<Rightarrow> 'c world \<Rightarrow> 'c world" where
  "upd g w =
     w\<lparr>facade := g (facade w),
       trace := trace w @
         map Notified (drop (length (notified (facade w))) (notified (g (facade w))))\<rparr>"

text \<open>
  The events and the snapshots of a trace. A world is faithful when its trace, read either
  way, gives the events emitted and the snapshots notified.
\<close>

fun told_events :: "observation list \<Rightarrow> event list" where
  "told_events [] = []"
| "told_events (Emitted ev # os) = ev # told_events os"
| "told_events (Notified s # os) = told_events os"

fun told_snapshots :: "observation list \<Rightarrow> player_state list" where
  "told_snapshots [] = []"
| "told_snapshots (Notified s # os) = s # told_snapshots os"
| "told_snapshots (Emitted ev # os) = told_snapshots os"

definition faithful :: "'c world \<Rightarrow> bool" where
  "faithful w =
     (told_events (trace w) = events w \<and> told_snapshots (trace w) = notified (facade w))"

section \<open>PlayerCore\<close>

text \<open>
  Every method returns the error it throws or rejects with (\<open>None\<close> when it returns or
  resolves) and the world it leaves behind.
\<close>

definition handleError :: "js_error \<Rightarrow> 'c world \<Rightarrow> 'c world" where
  "handleError e w = emit (Ev_error e) (upd (updateError e) w)"

definition play :: "'c playback_controller \<Rightarrow> 'c world \<Rightarrow> js_error option \<times> 'c world" where
  "play pc w =
     (if state (getState (facade w)) = Idle
      then (Some (Error ''No media loaded''), handleError (Error ''No media loaded'') w)
      else (case pc_play pc (ctrl w) of
              (Some e, c) \<Rightarrow> (Some e, handleError e (w\<lparr>ctrl := c\<rparr>))
            | (None, c) \<Rightarrow>
                (None, emit Ev_playing (emit Ev_play
                         (upd (updatePlaybackState True) (w\<lparr>ctrl := c\<rparr>))))))"

definition pause :: "'c playback_controller \<Rightarrow> 'c world \<Rightarrow> js_error option \<times> 'c world" where
  "pause pc w =
     (case pc_pause pc (ctrl w) of
        (Some e, c) \<Rightarrow> (Some e, w\<lparr>ctrl := c\<rparr>)
      | (None, c) \<Rightarrow> (None, emit Ev_pause (upd (updatePlaybackState False) (w\<lparr>ctrl := c\<rparr>))))"

definition seek ::
  "'c playback_controller \<Rightarrow> real \<Rightarrow> 'c world \<Rightarrow> js_error option \<times> 'c world" where
  "seek pc time w =
     (if state (getState (facade w)) = Idle
      then (Some (Error ''No media loaded''),
            handleError (Error ''No media loaded'') (upd (updateSeekingState False) w))
      else (let w1 = emit (Ev_seeking time) (upd (updateSeekingState True) w) in
            case pc_seek pc time (ctrl w1) of
              (Some e, c) \<Rightarrow>
                (Some e, handleError e (upd (updateSeekingState False) (w1\<lparr>ctrl := c\<rparr>)))
            | (None, c) \<Rightarrow>
                (None, emit (Ev_seeked (pc_getCurrentTime pc c))
                         (upd (updateTime (pc_getCurrentTime pc c))
                            (upd (updateSeekingState False) (w1\<lparr>ctrl := c\<rparr>))))))"

definition stop :: "'c playback_controller \<Rightarrow> 'c world \<Rightarrow> js_error option \<times> 'c world" where
  "stop pc w =
     (case pause pc w of
        (Some e, w1) \<Rightarrow> (Some e, handleError e w1)
      | (None, w1) \<Rightarrow>
          (case seek pc 0 w1 of
             (Some e, w2) \<Rightarrow> (Some e, handleError e w2)
           | (None, w2) \<Rightarrow> (None, w2)))"

subsection \<open>load\<close>

text \<open>
  \<^verbatim>\<open>SourceManager\<close>, \<^verbatim>\<open>TrackManager\<close>, \<^verbatim>\<open>TrackSwitcher\<close> and the input object are imported
  as types only. What they answer during one \<^verbatim>\<open>load()\<close> call is a parameter of that call:
  a rejected promise or a throw is \<open>Inl\<close> (or \<open>Some\<close>) of the error.
\<close>

type_synonym media_source = string

record media_input =
  computeDuration :: "js_error + real"
  getFormat :: "js_error + string"
  getMimeType :: "js_error + string"
  getMetadataTags :: "js_error + (string \<times> string) list"

record load_env =
  sm_createSource :: "media_source \<Rightarrow> js_error + media_input option"
  tm_initialize :: "js_error option"
  tm_hasVideo :: bool
  tm_hasAudio :: bool
  tm_hasSubtitles :: bool
  tm_getVideoTracks :: "track list"
  tm_getAudioTracks :: "track list"
  tm_getSubtitleTracks :: "track list"
  tm_getPrimaryVideoTrack :: "track option"
  tm_getPrimaryAudioTrack :: "track option"
  ts_setupInitialTracks :: "track option \<Rightarrow> track option \<Rightarrow> js_error + track_switch_result"

record load_options =
  autoplay :: bool
  startTime :: "real option"

text \<open>
  \<^verbatim>\<open>Promise.all\<close> over the four metadata reads: all four are started, and one rejection
  rejects the whole. Which rejection wins is a matter of timing; here it is the first in
  the order of the array.
\<close>

definition gather ::
  "media_input \<Rightarrow> js_error + (real \<times> string \<times> string \<times> (string \<times> string) list)" where
  "gather input =
     (case computeDuration input of Inl e \<Rightarrow> Inl e | Inr d \<Rightarrow>
      (case getFormat input of Inl e \<Rightarrow> Inl e | Inr fm \<Rightarrow>
       (case getMimeType input of Inl e \<Rightarrow> Inl e | Inr mt \<Rightarrow>
        (case getMetadataTags input of Inl e \<Rightarrow> Inl e | Inr tags \<Rightarrow> Inr (d, fm, mt, tags)))))"

text \<open>
  \<^verbatim>\<open>String.prototype.trim\<close> on the ASCII white space (the Unicode space separators are
  further bytes and are not stripped here).
\<close>

definition is_ws :: "char \<Rightarrow> bool" where
  "is_ws c = (c \<in> set [CHR '' '', CHR 0x09, CHR 0x0A, CHR 0x0B, CHR 0x0C, CHR 0x0D])"

definition trim :: "string \<Rightarrow> string" where
  "trim s = rev (dropWhile is_ws (rev (dropWhile is_ws s)))"

text \<open>
  Lines 162 to 172: the primary tracks go to the switcher only when one of them exists;
  the result is \<^verbatim>\<open>(warningMessage, videoSupported, audioSupported)\<close>.
\<close>

definition initial_tracks :: "load_env \<Rightarrow> js_error + (string \<times> bool \<times> bool)" where
  "initial_tracks env =
     (let videoTrack = tm_getPrimaryVideoTrack env;
          audioTrack = tm_getPrimaryAudioTrack env
      in if videoTrack \<noteq> None \<or> audioTrack \<noteq> None
         then (case ts_setupInitialTracks env videoTrack audioTrack of
                 Inl e \<Rightarrow> Inl e
               | Inr res \<Rightarrow> Inr ('''' @ warningMessage res, videoSupported res, audioSupported res))
         else Inr ('''', False, False))"

definition make_mediaInfo ::
  "load_env \<Rightarrow> real \<Rightarrow> string \<Rightarrow> string \<Rightarrow> (string \<times> string) list \<Rightarrow> media_info" where
  "make_mediaInfo env d fm mt tags =
     \<lparr>mi_duration = d, format = fm, mimeType = mt, metadata = tags,
      hasVideo = tm_hasVideo env, hasAudio = tm_hasAudio env,
      hasSubtitles = tm_hasSubtitles env\<rparr>"

text \<open>Lines 151 to 159: the state update of a load, setter by setter.\<close>

definition commit ::
  "'c playback_controller \<Rightarrow> load_env \<Rightarrow> real \<Rightarrow> media_info \<Rightarrow> 'c world \<Rightarrow> 'c world" where
  "commit pc env d mi w =
     (let w1 = upd (updateDuration d) w;
          w2 = upd (updateMediaInfo mi) w1;
          w3 = upd (updateTracks (tm_getVideoTracks env) (tm_getAudioTracks env)
                      (tm_getSubtitleTracks env)) w2
      in w3\<lparr>ctrl := pc_setDuration pc d (ctrl w3)\<rparr>)"

text \<open>Lines 194 and 195: the trailing autoplay and start time.\<close>

definition load_trailing ::
  "'c playback_controller \<Rightarrow> load_options \<Rightarrow> 'c world \<Rightarrow> js_error option \<times> 'c world" where
  "load_trailing pc options w =
     (case (if autoplay options then play pc w else (None, w)) of
        (Some e, w1) \<Rightarrow> (Some e, w1)
      | (None, w1) \<Rightarrow>
          (case startTime options of
             None \<Rightarrow> (None, w1)
           | Some t \<Rightarrow> seek pc t w1))"

text \<open>Lines 174 to 195, from the switcher's answer on.\<close>

definition load_decide ::
  "'c playback_controller \<Rightarrow> load_options \<Rightarrow> media_info \<Rightarrow> string \<times> bool \<times> bool \<Rightarrow>
     'c world \<Rightarrow> js_error option \<times> 'c world" where
  "load_decide pc options mi res w =
     (case res of (warning, vSupported, aSupported) \<Rightarrow>
        if \<not> vSupported \<and> \<not> aSupported
        then (Some (Error (if warning = '''' then ''No audio or video track found.'' else warning)), w)
        else
          (let w1 = (if warning \<noteq> '''' \<and> (vSupported \<or> aSupported)
                     then emit (Ev_warning (trim warning)) w else w);
               w2 = upd (updateReadyState True True) w1;
               w3 = emit Ev_canplaythrough (emit Ev_canplay (emit Ev_loadeddata
                      (emit (Ev_loadedmetadata mi) w2)))
           in load_trailing pc options w3))"

text \<open>The body of the \<^verbatim>\<open>try\<close> block of \<^verbatim>\<open>load\<close>.\<close>

definition load_try ::
  "'c playback_controller \<Rightarrow> load_env \<Rightarrow> media_source \<Rightarrow> load_options \<Rightarrow> 'c world \<Rightarrow>
     js_error option \<times> 'c world" where
  "load_try pc env source options w =
     (let w0 = emit Ev_loadstart (upd updateLoadingState (upd reset w)) in
      case sm_createSource env source of
        Inl e \<Rightarrow> (Some e, w0)
      | Inr None \<Rightarrow> (Some (Error ''Failed to create input from source''), w0)
      | Inr (Some input) \<Rightarrow>
          (case tm_initialize env of
             Some e \<Rightarrow> (Some e, w0)
           | None \<Rightarrow>
               (case gather input of
                  Inl e \<Rightarrow> (Some e, w0)
                | Inr (d, fm, mt, tags) \<Rightarrow>
                    (let mi = make_mediaInfo env d fm mt tags;
                         w1 = commit pc env d mi w0
                     in case initial_tracks env of
                          Inl e \<Rightarrow> (Some e, w1)
                        | Inr res \<Rightarrow> load_decide pc options mi res w1))))"

definition load ::
  "'c playback_controller \<Rightarrow> load_env \<Rightarrow> media_source \<Rightarrow> load_options \<Rightarrow> 'c world \<Rightarrow>
     js_error option \<times> 'c world" where
  "load pc env source options w =
     (case load_try pc env source options w of
        (Some e, w1) \<Rightarrow> (Some e, handleError e w1)
      | (None, w1) \<Rightarrow> (None, w1))"

text \<open>The media info a load commits, when it gets as far as committing one.\<close>

definition load_mediaInfo :: "load_env \<Rightarrow> media_source \<Rightarrow> media_info option" where
  "load_mediaInfo env source =
     (case sm_createSource env source of
        Inr (Some input) \<Rightarrow>
          (case tm_initialize env of
             None \<Rightarrow>
               (case gather input of
                  Inr (d, fm, mt, tags) \<Rightarrow> Some (make_mediaInfo env d fm mt tags)
                | Inl e \<Rightarrow> None)
           | Some e \<Rightarrow> None)
      | _ \<Rightarrow> None)"

definition load_tracks :: "load_env \<Rightarrow> track list \<times> track list \<times> track list" where
  "load_tracks env = (tm_getVideoTracks env, tm_getAudioTracks env, tm_getSubtitleTracks env)"

subsection \<open>A load between its suspension points\<close>

text \<open>
  \<^verbatim>\<open>load\<close> suspends at each \<^verbatim>\<open>await\<close>, and the caller may start another call meanwhile. A
  pending load is the \<^verbatim>\<open>await\<close> it is suspended at with the local values it still needs;
  \<open>load_resume\<close> runs it to its next \<^verbatim>\<open>await\<close>. What follows the switcher's answer, with
  the calls to \<^verbatim>\<open>play\<close> and \<^verbatim>\<open>seek\<close>, is run as one piece.
\<close>

datatype pending_load =
    Awaiting_createSource
  | Awaiting_initialize media_input
  | Awaiting_metadata media_input
  | Awaiting_setupInitialTracks media_info
  | Settled "js_error option"

definition load_start :: "'c world \<Rightarrow> pending_load \<times> 'c world" where
  "load_start w = (Awaiting_createSource, emit Ev_loadstart (upd updateLoadingState (upd reset w)))"

text \<open>The end of the \<^verbatim>\<open>try\<close> block: a throw goes through the \<^verbatim>\<open>catch\<close>.\<close>

definition load_settle :: "js_error option \<times> 'c world \<Rightarrow> pending_load \<times> 'c world" where
  "load_settle r =
     (case r of
        (Some e, w) \<Rightarrow> (Settled (Some e), handleError e w)
      | (None, w) \<Rightarrow> (Settled None, w))"

fun load_resume ::
  "'c playback_controller \<Rightarrow> load_env \<Rightarrow> media_source \<Rightarrow> load_options \<Rightarrow>
     pending_load \<times> 'c world \<Rightarrow> pending_load \<times> 'c world" where
  "load_resume pc env source options (Awaiting_createSource, w) =
     (case sm_createSource env source of
        Inl e \<Rightarrow> load_settle (Some e, w)
      | Inr None \<Rightarrow> load_settle (Some (Error ''Failed to create input from source''), w)
      | Inr (Some input) \<Rightarrow> (Awaiting_initialize input, w))"
| "load_resume pc env source options (Awaiting_initialize input, w) =
     (case tm_initialize env of
        Some e \<Rightarrow> load_settle (Some e, w)
      | None \<Rightarrow> (Awaiting_metadata input, w))"
| "load_resume pc env source options (Awaiting_metadata input, w) =
     (case gather input of
        Inl e \<Rightarrow> load_settle (Some e, w)
      | Inr (d, fm, mt, tags) \<Rightarrow>
          (let mi = make_mediaInfo env d fm mt tags;
               w1 = commit pc env d mi w
           in if tm_getPrimaryVideoTrack env \<noteq> None \<or> tm_getPrimaryAudioTrack env \<noteq> None
              then (Awaiting_setupInitialTracks mi, w1)
              else load_settle (load_decide pc options mi ('''', False, False) w1)))"
| "load_resume pc env source options (Awaiting_setupInitialTracks mi, w) =
     (case initial_tracks env of
        Inl e \<Rightarrow> load_settle (Some e, w)
      | Inr res \<Rightarrow> load_settle (load_decide pc options mi res w))"
| "load_resume pc env source options (Settled r, w) = (Settled r, w)"

text \<open>A load that nothing interrupts: started, then resumed four times.\<close>

definition load_to_end ::
  "'c playback_controller \<Rightarrow> load_env \<Rightarrow> media_source \<Rightarrow> load_options \<Rightarrow>
     'c world \<Rightarrow> pending_load \<times> 'c world" where
  "load_to_end pc env source options w =
     load_resume pc env source options (load_resume pc env source options
       (load_resume pc env source options (load_resume pc env source options (load_start w))))"

subsection \<open>Call sequences\<close>

text \<open>
  A player is used through a sequence of calls, each completing before the next starts. A
  call that rejects leaves the player usable, so the sequence goes on from the world it
  left.
\<close>

datatype call =
    Load load_env media_source load_options
  | Play
  | Pause
  | Seek real
  | Stop

fun perform :: "'c playback_controller \<Rightarrow> call \<Rightarrow> 'c world \<Rightarrow> js_error option \<times> 'c world" where
  "perform pc (Load env source options) w = load pc env source options w"
| "perform pc Play w = play pc w"
| "perform pc Pause w = pause pc w"
| "perform pc (Seek t) w = seek pc t w"
| "perform pc Stop w = stop pc w"

fun run :: "'c playback_controller \<Rightarrow> call list \<Rightarrow> 'c world \<Rightarrow> 'c world" where
  "run pc [] w = w"
| "run pc (c # cs) w = run pc cs (snd (perform pc c w))"

definition new_player :: "'c \<Rightarrow> 'c world" where
  "new_player c = \<lparr>facade = \<lparr>cur = idle_state, notified = []\<rparr>, events = [], trace = [], ctrl = c\<rparr>"

fun loads_of :: "call list \<Rightarrow> (load_env \<times> media_source) list" where
  "loads_of [] = []"
| "loads_of (Load env source options # cs) = (env, source) # loads_of cs"
| "loads_of (c # cs) = loads_of cs"

text \<open>
  A snapshot is paired when it shows no media info and no tracks, or the media info of one
  of the loads together with the tracks of that same load.
\<close>

definition paired :: "(load_env \<times> media_source) list \<Rightarrow> player_state \<Rightarrow> bool" where
  "paired loads s =
     ((mediaInfo s = None \<and> tracks s = ([], [], [])) \<or>
      (\<exists>(env, source) \<in> set loads.
         mediaInfo s \<noteq> None \<and> mediaInfo s = load_mediaInfo env source \<and>
         tracks s = load_tracks env))"

text \<open>
  A snapshot awaits its tracks when it shows the media info of one of the loads with the
  track lists still empty, and the snapshot after it differs by that load's tracks only.
\<close>

definition awaiting_tracks ::
  "(load_env \<times> media_source) list \<Rightarrow> player_state \<Rightarrow> player_state \<Rightarrow> bool" where
  "awaiting_tracks loads s s' =
     (\<exists>(env, source) \<in> set loads.
        mediaInfo s \<noteq> None \<and> mediaInfo s = load_mediaInfo env source \<and>
        tracks s = ([], [], []) \<and> s' = s\<lparr>tracks := load_tracks env\<rparr>)"

text \<open>
  A sequence of snapshots is well paired when each is paired or awaits its tracks from
  the next; the last one is paired.
\<close>

fun well_paired :: "(load_env \<times> media_source) list \<Rightarrow> player_state list \<Rightarrow> bool" where
  "well_paired loads [] = True"
| "well_paired loads [s] = paired loads s"
| "well_paired loads (s # s' # ss) =
     ((paired loads s \<or> awaiting_tracks loads s s') \<and> well_paired loads (s' # ss))"

text \<open>The state a world has is paired, and the snapshots it has notified are well paired.\<close>

definition all_paired :: "(load_env \<times> media_source) list \<Rightarrow> 'c world \<Rightarrow> bool" where
  "all_paired loads w =
     (paired loads (cur (facade w)) \<and> well_paired loads (notified (facade w)))"

text \<open>The events of the load sequence, and \<^verbatim>\<open>error\<close>.\<close>

fun load_sequence_event :: "event \<Rightarrow> bool" where
  "load_sequence_event Ev_loadstart = True"
| "load_sequence_event (Ev_loadedmetadata mi) = True"
| "load_sequence_event Ev_loadeddata = True"
| "load_sequence_event Ev_canplay = True"
| "load_sequence_event Ev_canplaythrough = True"
| "load_sequence_event (Ev_error e) = True"
| "load_sequence_event ev = False"

section \<open>Canvas2DRenderer\<close>

text \<open>
  Canvas dimensions are unsigned integers. A 2D context is its settings and the drawing
  calls it has carried out, oldest first. Whether a drawing call throws is the browser's
  decision and a parameter of \<open>render\<close>.
\<close>

record canvas =
  width :: nat
  height :: nat

datatype draw_op =
    FillRect int int int int
  | DrawImage canvas int int int int int int int int

record context2d =
  fillStyle :: string
  imageSmoothingEnabled :: bool
  imageSmoothingQuality :: string
  drawn :: "draw_op list"

record renderer =
  canvas :: canvas
  ctx :: "context2d option"
  isInitialized :: bool

datatype getContext_result = GetContext_throws | GetContext_null | GetContext context2d

definition initialize :: "getContext_result \<Rightarrow> renderer \<Rightarrow> bool \<times> renderer" where
  "initialize g r =
     (case g of
        GetContext_throws \<Rightarrow> (False, r)
      | GetContext_null \<Rightarrow> (False, r\<lparr>ctx := None\<rparr>)
      | GetContext c \<Rightarrow>
          (True, r\<lparr>ctx := Some (c\<lparr>imageSmoothingEnabled := True,
                                 imageSmoothingQuality := ''high''\<rparr>),
                  isInitialized := True\<rparr>))"

definition new_renderer :: "canvas \<Rightarrow> getContext_result \<Rightarrow> renderer" where
  "new_renderer cv g = snd (initialize g \<lparr>canvas = cv, ctx = None, isInitialized = False\<rparr>)"

definition isReady :: "renderer \<Rightarrow> bool" where
  "isReady r = (isInitialized r \<and> ctx r \<noteq> None)"

definition dispose :: "renderer \<Rightarrow> renderer" where
  "dispose r = r\<lparr>ctx := None, isInitialized := False\<rparr>"

text \<open>
  \<^verbatim>\<open>Math.round\<close> returns the nearest integer, a tie going up. The other arithmetic of
  \<open>render\<close> is in IEEE doubles: each operation is the exact one followed by the rounding
  \<open>rnd\<close> to a double, a parameter. \<^verbatim>\<open>Math.min\<close> is exact.
\<close>

definition js_round :: "real \<Rightarrow> int" where
  "js_round x = \<lfloor>x + 1 / 2\<rfloor>"

text \<open>Lines 64 to 69: \<open>(dx, dy, destW, destH)\<close>.\<close>

definition letterbox ::
  "(real \<Rightarrow> real) \<Rightarrow> nat \<Rightarrow> nat \<Rightarrow> nat \<Rightarrow> nat \<Rightarrow> int \<times> int \<times> int \<times> int" where
  "letterbox rnd canvasWidth canvasHeight sourceWidth sourceHeight =
     (let scale = min (rnd (real canvasWidth / real sourceWidth))
                      (rnd (real canvasHeight / real sourceHeight));
          destW = js_round (rnd (real sourceWidth * scale));
          destH = js_round (rnd (real sourceHeight * scale));
          dx = js_round (rnd (rnd (real canvasWidth - of_int destW) / 2));
          dy = js_round (rnd (rnd (real canvasHeight - of_int destH) / 2))
      in (dx, dy, destW, destH))"

definition render ::
  "(real \<Rightarrow> real) \<Rightarrow> (draw_op \<Rightarrow> bool) \<Rightarrow> canvas \<Rightarrow> renderer \<Rightarrow> bool \<times> renderer" where
  "render rnd throws source r =
     (case ctx r of
        None \<Rightarrow> (False, r)
      | Some c \<Rightarrow>
          if \<not> isReady r then (False, r)
          else if width source = 0 \<or> height source = 0 then (False, r)
          else if width (canvas r) = 0 \<or> height (canvas r) = 0 then (False, r)
          else
            (case letterbox rnd (width (canvas r)) (height (canvas r))
                    (width source) (height source) of
               (dx, dy, destW, destH) \<Rightarrow>
                 (let c1 = c\<lparr>fillStyle := ''black''\<rparr>;
                      fill = FillRect 0 0 (int (width (canvas r))) (int (height (canvas r)));
                      draw = DrawImage source 0 0 (int (width source)) (int (height source))
                               dx dy destW destH
                  in if throws fill then (False, r\<lparr>ctx := Some c1\<rparr>)
                     else if throws draw
                       then (False, r\<lparr>ctx := Some (c1\<lparr>drawn := drawn c1 @ [fill]\<rparr>)\<rparr>)
                       else (True, r\<lparr>ctx := Some (c1\<lparr>drawn := drawn c1 @ [fill, draw]\<rparr>)\<rparr>))))"

text \<open>Lines 73 and 76: the two drawing calls of \<open>render\<close>.\<close>

definition fill_call :: "renderer \<Rightarrow> draw_op" where
  "fill_call r = FillRect 0 0 (int (width (canvas r))) (int (height (canvas r)))"

definition draw_call :: "(real \<Rightarrow> real) \<Rightarrow> canvas \<Rightarrow> renderer \<Rightarrow> draw_op" where
  "draw_call rnd source r =
     (case letterbox rnd (width (canvas r)) (height (canvas r)) (width source) (height source) of
        (dx, dy, destW, destH) \<Rightarrow>
          DrawImage source 0 0 (int (width source)) (int (height source)) dx dy destW destH)"

text \<open>
  What is asked of the rounding: the relative error of a double operation, for results
  between \<open>2\<^sup>-\<^sup>6\<^sup>4\<close> and \<open>2\<^sup>6\<^sup>5\<close> in size (well inside the normal range), and that the halves
  of the integers up to \<open>2\<^sup>3\<^sup>3\<close> in size are doubles. Round to nearest satisfies both, and so
  does exact arithmetic.
\<close>

definition double_rounding :: "(real \<Rightarrow> real) \<Rightarrow> bool" where
  "double_rounding rnd =
     ((\<forall>x. 1 / 2 ^ 64 \<le> \<bar>x\<bar> \<and> \<bar>x\<bar> \<le> 2 ^ 65 \<longrightarrow> \<bar>rnd x - x\<bar> \<le> \<bar>x\<bar> / 2 ^ 53) \<and>
      (\<forall>k::int. \<bar>k\<bar> \<le> 2 ^ 33 \<longrightarrow> rnd (of_int k / 2) = of_int k / 2))"

section \<open>Example collaborators\<close>

text \<open>
  A controller whose state is its position, seeking to the key frame at or before the
  request (one every two seconds); a source whose first frame is at one second; a
  controller whose every operation fails; and one whose seek alone fails.
\<close>

definition keyframe_controller :: "real playback_controller" where
  "keyframe_controller =
     \<lparr>pc_play = (\<lambda>c. (None, c)), pc_pause = (\<lambda>c. (None, c)),
      pc_seek = (\<lambda>t c. (None, 2 * of_int \<lfloor>t / 2\<rfloor>)),
      pc_getCurrentTime = (\<lambda>c. c), pc_setDuration = (\<lambda>d c. c)\<rparr>"

definition late_start_controller :: "real playback_controller" where
  "late_start_controller =
     \<lparr>pc_play = (\<lambda>c. (None, c)), pc_pause = (\<lambda>c. (None, c)),
      pc_seek = (\<lambda>t c. (None, max 1 t)),
      pc_getCurrentTime = (\<lambda>c. c), pc_setDuration = (\<lambda>d c. c)\<rparr>"

definition failing_controller :: "real playback_controller" where
  "failing_controller =
     \<lparr>pc_play = (\<lambda>c. (Some (Error ''decode failed''), c)),
      pc_pause = (\<lambda>c. (Some (Error ''decode failed''), c)),
      pc_seek = (\<lambda>t c. (Some (Error ''decode failed''), c)),
      pc_getCurrentTime = (\<lambda>c. c), pc_setDuration = (\<lambda>d c. c)\<rparr>"

definition seek_failing_controller :: "real playback_controller" where
  "seek_failing_controller =
     \<lparr>pc_play = (\<lambda>c. (None, c)), pc_pause = (\<lambda>c. (None, c)),
      pc_seek = (\<lambda>t c. (Some (Error ''seek failed''), c)),
      pc_getCurrentTime = (\<lambda>c. c), pc_setDuration = (\<lambda>d c. c)\<rparr>"

definition fresh_world :: "real world" where
  "fresh_world = \<lparr>facade = \<lparr>cur = idle_state, notified = []\<rparr>, events = [], trace = [], ctrl = 0\<rparr>"

definition ready_world :: "real world" where
  "ready_world =
     \<lparr>facade = \<lparr>cur = idle_state\<lparr>state := Ready, isPlaying := True, currentTime := 7\<rparr>,
                 notified = []\<rparr>,
      events = [], trace = [], ctrl = 7\<rparr>"

definition example_input :: media_input where
  "example_input =
     \<lparr>computeDuration = Inr 60, getFormat = Inr ''mp4'', getMimeType = Inr ''video/mp4'',
      getMetadataTags = Inr []\<rparr>"

text \<open>
  One video track and one audio track; the switcher supports a track unless its codec is
  \<^verbatim>\<open>hevc\<close>.
\<close>

definition example_switcher :: "track option \<Rightarrow> track option \<Rightarrow> js_error + track_switch_result" where
  "example_switcher v a =
     (let bad = (\<lambda>t. case t of None \<Rightarrow> True | Some tr \<Rightarrow> codec tr = ''hevc'') in
      Inr \<lparr>warningMessage =
             (if v \<noteq> None \<and> bad v then ''Unsupported video codec. '' else '''') @
             (if a \<noteq> None \<and> bad a then ''Unsupported audio codec.'' else ''''),
           videoSupported = (\<not> bad v), audioSupported = (\<not> bad a)\<rparr>)"

definition example_env :: "track \<Rightarrow> track \<Rightarrow> load_env" where
  "example_env v a =
     \<lparr>sm_createSource = (\<lambda>src. Inr (Some example_input)), tm_initialize = None,
      tm_hasVideo = True, tm_hasAudio = True, tm_hasSubtitles = False,
      tm_getVideoTracks = [v], tm_getAudioTracks = [a], tm_getSubtitleTracks = [],
      tm_getPrimaryVideoTrack = Some v, tm_getPrimaryAudioTrack = Some a,
      ts_setupInitialTracks = example_switcher\<rparr>"

text \<open>
  Both codecs unsupported; the video codec alone unsupported (the scenario of the spec's
  section 8); the media info either load commits; and two sets of load options.
\<close>

definition hevc_env :: load_env where
  "hevc_env = example_env (Track ''v1'' ''hevc'') (Track ''a1'' ''hevc'')"

definition mixed_env :: load_env where
  "mixed_env = example_env (Track ''v1'' ''hevc'') (Track ''a1'' ''aac'')"

definition example_mediaInfo :: media_info where
  "example_mediaInfo =
     \<lparr>mi_duration = 60, format = ''mp4'', mimeType = ''video/mp4'', metadata = [],
      hasVideo = True, hasAudio = True, hasSubtitles = False\<rparr>"

definition plain_options :: load_options where
  "plain_options = \<lparr>autoplay = False, startTime = None\<rparr>"

definition eager_options :: load_options where
  "eager_options = \<lparr>autoplay = True, startTime = Some (103 / 10)\<rparr>"

text \<open>
  A player after \<^verbatim>\<open>load\<close> of the movie has completed, and after \<^verbatim>\<open>play\<close> has completed
  too.
\<close>

definition loaded_world :: "real playback_controller \<Rightarrow> real world" where
  "loaded_world pc = run pc [Load mixed_env ''movie.mp4'' plain_options] (new_player 0)"

definition playing_world :: "real playback_controller \<Rightarrow> real world" where
  "playing_world pc = run pc [Load mixed_env ''movie.mp4'' plain_options, Play] (new_player 0)"

text \<open>
  A second source, and two overlapping loads: the load of \<^verbatim>\<open>clip.webm\<close> starts and waits
  for its source; the caller loads \<^verbatim>\<open>movie.mp4\<close>, which completes; then the first load
  resumes, up to its wait for the switcher.
\<close>

definition webm_input :: media_input where
  "webm_input =
     \<lparr>computeDuration = Inr 30, getFormat = Inr ''webm'', getMimeType = Inr ''video/webm'',
      getMetadataTags = Inr []\<rparr>"

definition webm_env :: load_env where
  "webm_env =
     (example_env (Track ''v2'' ''vp9'') (Track ''a2'' ''opus''))
       \<lparr>sm_createSource := (\<lambda>src. Inr (Some webm_input))\<rparr>"

definition overlapped_world :: "real world" where
  "overlapped_world =
     snd (load_resume keyframe_controller webm_env ''clip.webm'' plain_options
       (load_resume keyframe_controller webm_env ''clip.webm'' plain_options
         (load_resume keyframe_controller webm_env ''clip.webm'' plain_options
           (Awaiting_createSource,
            snd (load keyframe_controller mixed_env ''movie.mp4'' plain_options
                   (snd (load_start fresh_world)))))))"

text \<open>A renderer on a canvas of 100 by 50, a square source, and a source without width.\<close>

definition blank_context :: context2d where
  "blank_context = \<lparr>fillStyle = ''#000000'', imageSmoothingEnabled = False,
     imageSmoothingQuality = ''low'', drawn = []\<rparr>"

definition example_renderer :: renderer where
  "example_renderer = new_renderer \<lparr>width = 100, height = 50\<rparr> (GetContext blank_context)"

definition example_source :: canvas where
  "example_source = \<lparr>width = 200, height = 200\<rparr>"

definition empty_source :: canvas where
  "empty_source = \<lparr>width = 0, height = 200\<rparr>"

text \<open>
  Exact arithmetic, drawing calls that never throw, and a canvas of 10 by 1 for a source
  of 1 by 3.
\<close>

definition exact :: "real \<Rightarrow> real" where
  "exact x = x"

definition never_throws :: "draw_op \<Rightarrow> bool" where
  "never_throws op = False"

definition narrow_renderer :: renderer where
  "narrow_renderer = new_renderer \<lparr>width = 10, height = 1\<rparr> (GetContext blank_context)"

definition thin_source :: canvas where
  "thin_source = \<lparr>width = 1, height = 3\<rparr>"

section \<open>Basic facts about the setters\<close>

lemma cur_setState [simp]: "cur (setState s f) = s"
  by (simp add: setState_def)

lemma notified_setState [simp]: "notified (setState s f) = notified f @ [s]"
  by (simp add: setState_def)

lemma facade_upd [simp]: "facade (upd g w) = g (facade w)"
  by (simp add: upd_def)

lemma events_upd [simp]: "events (upd g w) = events w"
  by (simp add: upd_def)

lemma ctrl_upd [simp]: "ctrl (upd g w) = ctrl w"
  by (simp add: upd_def)

lemma facade_emit [simp]: "facade (emit ev w) = facade w"
  by (simp add: emit_def)

lemma events_emit [simp]: "events (emit ev w) = events w @ [ev]"
  by (simp add: emit_def)

lemma ctrl_emit [simp]: "ctrl (emit ev w) = ctrl w"
  by (simp add: emit_def)

lemmas setter_defs =
  reset_def updateLoadingState_def updateDuration_def updateMediaInfo_def updateTracks_def
  updateReadyState_def updatePlaybackState_def updateSeekingState_def updateTime_def
  updateError_def getState_def

lemma facade_handleError [simp]: "facade (handleError e w) = updateError e (facade w)"
  by (simp add: handleError_def)

lemma events_handleError [simp]: "events (handleError e w) = events w @ [Ev_error e]"
  by (simp add: handleError_def)

lemma ctrl_handleError [simp]: "ctrl (handleError e w) = ctrl w"
  by (simp add: handleError_def)

lemma trace_emit [simp]: "trace (emit ev w) = trace w @ [Emitted ev]"
  by (simp add: emit_def)

lemma trace_upd_setState [simp]:
  "trace (upd (setState s) w) = trace w @ [Notified s]"
  by (simp add: upd_def)

lemma trace_setters [simp]:
  "trace (upd (updateSeekingState b) w) = trace w @ [Notified ((cur (facade w))\<lparr>seeking := b\<rparr>)]"
  "trace (upd (updateError e) w) =
     trace w @ [Notified ((cur (facade w))\<lparr>state := Errored, error := Some e\<rparr>)]"
  "trace (upd (updateTime t) w) = trace w @ [Notified ((cur (facade w))\<lparr>currentTime := t\<rparr>)]"
  "trace (upd (updatePlaybackState b) w) =
     trace w @ [Notified ((cur (facade w))\<lparr>isPlaying := b\<rparr>)]"
  by (simp_all add: upd_def setter_defs)

lemma trace_handleError [simp]:
  "trace (handleError e w) =
     trace w @ [Notified ((cur (facade w))\<lparr>state := Errored, error := Some e\<rparr>),
                Emitted (Ev_error e)]"
  by (simp add: handleError_def)

lemma trace_ctrl [simp]: "trace (w\<lparr>ctrl := c\<rparr>) = trace w"
  by simp

lemmas example_defs =
  hevc_env_def mixed_env_def example_env_def example_switcher_def example_input_def
  example_mediaInfo_def plain_options_def eager_options_def fresh_world_def
  keyframe_controller_def

lemmas load_defs =
  load_def load_try_def load_decide_def load_trailing_def commit_def initial_tracks_def
  gather_def make_mediaInfo_def load_mediaInfo_def load_tracks_def Let_def

lemmas world_defs =
  loaded_world_def playing_world_def new_player_def load_defs example_defs play_def pause_def
  seek_def stop_def setter_defs idle_state_def upd_def emit_def handleError_def
  late_start_controller_def failing_controller_def seek_failing_controller_def

section \<open>The trace\<close>

text \<open>
  Every method keeps a world faithful, so after any sequence of calls on a new player the
  trace is the events and the snapshots in the order they were told.
\<close>

lemma told_events_append [simp]: "told_events (xs @ ys) = told_events xs @ told_events ys"
  by (induction xs rule: told_events.induct) simp_all

lemma told_snapshots_append [simp]:
  "told_snapshots (xs @ ys) = told_snapshots xs @ told_snapshots ys"
  by (induction xs rule: told_snapshots.induct) simp_all

lemma told_Notified [simp]:
  "told_events (map Notified ss) = []" "told_snapshots (map Notified ss) = ss"
  by (induction ss) simp_all

lemma faithful_emit [simp]: "faithful (emit ev w) = faithful w"
  by (simp add: faithful_def emit_def)

lemma faithful_ctrl [simp]: "faithful (w\<lparr>ctrl := c\<rparr>) = faithful w"
  by (simp add: faithful_def)

lemma faithful_setState: "faithful w \<Longrightarrow> faithful (upd (setState s) w)"
  by (simp add: faithful_def upd_def)

lemma faithful_setters:
  assumes "faithful w"
  shows "faithful (upd (updatePlaybackState b) w)"
    and "faithful (upd (updateSeekingState b) w)"
    and "faithful (upd (updateTime t) w)"
    and "faithful (upd (updateError e) w)"
    and "faithful (upd (updateReadyState b b') w)"
    and "faithful (upd updateLoadingState w)"
    and "faithful (upd (updateDuration d) w)"
    and "faithful (upd (updateMediaInfo mi) w)"
    and "faithful (upd (updateTracks v a st) w)"
    and "faithful (upd reset w)"
  using assms by (simp_all add: faithful_def upd_def setter_defs)

lemma faithful_handleError: "faithful w \<Longrightarrow> faithful (handleError e w)"
  by (simp add: handleError_def faithful_setters)

lemma faithful_play: "faithful w \<Longrightarrow> faithful (snd (play pc w))"
  by (simp add: play_def faithful_setters faithful_handleError split: prod.splits option.splits)

lemma faithful_pause: "faithful w \<Longrightarrow> faithful (snd (pause pc w))"
  by (simp add: pause_def faithful_setters split: prod.splits option.splits)

lemma faithful_seek: "faithful w \<Longrightarrow> faithful (snd (seek pc t w))"
  by (simp add: seek_def Let_def faithful_setters faithful_handleError
           split: prod.splits option.splits)

lemma faithful_stop: "faithful w \<Longrightarrow> faithful (snd (stop pc w))"
  using faithful_pause [of w pc] faithful_seek [of "snd (pause pc w)" pc 0]
  by (auto simp: stop_def faithful_handleError split: prod.splits option.splits)

lemma faithful_load_trailing: "faithful w \<Longrightarrow> faithful (snd (load_trailing pc options w))"
  using faithful_play [of w pc] faithful_seek [of "snd (play pc w)" pc] faithful_seek [of w pc]
  by (auto simp: load_trailing_def split: prod.splits option.splits)

lemma faithful_load_decide:
  "faithful w \<Longrightarrow> faithful (snd (load_decide pc options mi res w))"
  by (auto simp: load_decide_def Let_def faithful_setters faithful_load_trailing
           split: prod.splits)

lemma faithful_commit: "faithful w \<Longrightarrow> faithful (commit pc env d mi w)"
  by (simp add: commit_def Let_def faithful_setters)

lemma faithful_load_try: "faithful w \<Longrightarrow> faithful (snd (load_try pc env source options w))"
  by (auto simp: load_try_def Let_def faithful_setters faithful_commit faithful_load_decide
           split: sum.splits option.splits prod.splits)

lemma faithful_load: "faithful w \<Longrightarrow> faithful (snd (load pc env source options w))"
  using faithful_load_try [of w pc env source options]
  by (auto simp: load_def faithful_handleError split: prod.splits option.splits)

lemma faithful_perform: "faithful w \<Longrightarrow> faithful (snd (perform pc c w))"
  by (cases c) (simp_all add: faithful_load faithful_play faithful_pause faithful_seek faithful_stop)

lemma faithful_run: "faithful w \<Longrightarrow> faithful (run pc cs w)"
  by (induction cs arbitrary: w) (simp_all add: faithful_perform)

lemma faithful_new_player: "faithful (new_player c)"
  by (simp add: faithful_def new_player_def)

section \<open>Single calls that succeed\<close>

lemma play_success:
  assumes "play pc w = (None, w')"
  shows "events w' = events w @ [Ev_play, Ev_playing]"
    and "notified (facade w') = notified (facade w) @ [cur (facade w')]"
    and "cur (facade w') = (cur (facade w))\<lparr>isPlaying := True\<rparr>"
  using assms by (auto simp: play_def setter_defs split: if_splits prod.splits option.splits)

lemma pause_success:
  assumes "pause pc w = (None, w')"
  shows "cur (facade w') = (cur (facade w))\<lparr>isPlaying := False\<rparr>"
  using assms by (auto simp: pause_def setter_defs split: prod.splits option.splits)

lemma seek_success:
  assumes "seek pc t w = (None, w')"
  shows "events w' = events w @ [Ev_seeking t, Ev_seeked (pc_getCurrentTime pc (ctrl w'))]"
    and "ctrl w' = snd (pc_seek pc t (ctrl w))"
    and "cur (facade w') = (cur (facade w))\<lparr>seeking := False, currentTime := pc_getCurrentTime pc (ctrl w')\<rparr>"
  using assms by (auto simp: seek_def Let_def setter_defs split: if_splits prod.splits option.splits)

section \<open>Calls against an idle player\<close>

text \<open>
  Claim C2. Whatever happened before, when the lifecycle state is \<^verbatim>\<open>idle\<close> both \<^verbatim>\<open>play()\<close> and
  \<^verbatim>\<open>seek(time)\<close> reject, and the rejected call leaves \<^verbatim>\<open>isPlaying\<close> and \<^verbatim>\<open>currentTime\<close> of the
  player state as they were.
\<close>

theorem idle_play_seek_reject:
  assumes "state (getState (facade w)) = Idle"
  shows "fst (play pc w) = Some (Error ''No media loaded'')
       \<and> isPlaying (getState (facade (snd (play pc w)))) = isPlaying (getState (facade w))
       \<and> currentTime (getState (facade (snd (play pc w)))) = currentTime (getState (facade w))
       \<and> fst (seek pc t w) = Some (Error ''No media loaded'')
       \<and> isPlaying (getState (facade (snd (seek pc t w)))) = isPlaying (getState (facade w))
       \<and> currentTime (getState (facade (snd (seek pc t w)))) = currentTime (getState (facade w))"
  using assms by (simp add: play_def seek_def setter_defs)

theorem idle_play_seek_reject_witness:
  "state (getState (facade fresh_world)) = Idle
   \<and> fst (play keyframe_controller fresh_world) = Some (Error ''No media loaded'')
   \<and> isPlaying (getState (facade (snd (play keyframe_controller fresh_world)))) = False
   \<and> currentTime (getState (facade (snd (play keyframe_controller fresh_world)))) = 0
   \<and> fst (seek keyframe_controller 3 fresh_world) = Some (Error ''No media loaded'')
   \<and> isPlaying (getState (facade (snd (seek keyframe_controller 3 fresh_world)))) = False
   \<and> currentTime (getState (facade (snd (seek keyframe_controller 3 fresh_world)))) = 0"
  using idle_play_seek_reject [of fresh_world keyframe_controller 3]
  by (simp add: fresh_world_def idle_state_def getState_def)

section \<open>pause\<close>

text \<open>
  Claim C5, as stated: \<^verbatim>\<open>pause()\<close> never raises, whatever the controller does. It does
  raise when the controller's own \<^verbatim>\<open>pause\<close> throws: the call is not guarded, so with a
  controller that fails the error reaches the caller, \<^verbatim>\<open>isPlaying\<close> stays true and no
  \<^verbatim>\<open>pause\<close> event is emitted.
\<close>

theorem pause_counterexample:
  "fst (pause failing_controller ready_world) = Some (Error ''decode failed'')
   \<and> isPlaying (getState (facade (snd (pause failing_controller ready_world)))) = True
   \<and> events (snd (pause failing_controller ready_world)) = []"
  by (simp add: pause_def failing_controller_def ready_world_def idle_state_def getState_def)

text \<open>
  Claim C5, amended. \<^verbatim>\<open>pause()\<close> fails exactly when the controller's \<^verbatim>\<open>pause\<close> throws, with
  that error, and then changes neither the player state nor the event stream. It never
  records an error in the state and never emits an \<^verbatim>\<open>error\<close> event. When the controller's
  \<^verbatim>\<open>pause\<close> returns, \<^verbatim>\<open>isPlaying\<close> becomes false and exactly one event, \<^verbatim>\<open>pause\<close>, is emitted.
\<close>

theorem pause_outcome:
  "fst (pause pc w) = fst (pc_pause pc (ctrl w))
   \<and> error (getState (facade (snd (pause pc w)))) = error (getState (facade w))
   \<and> (\<forall>e. Ev_error e \<in> set (events (snd (pause pc w))) \<longrightarrow> Ev_error e \<in> set (events w))
   \<and> (fst (pc_pause pc (ctrl w)) = None \<longrightarrow>
        isPlaying (getState (facade (snd (pause pc w)))) = False
      \<and> events (snd (pause pc w)) = events w @ [Ev_pause])
   \<and> (fst (pc_pause pc (ctrl w)) \<noteq> None \<longrightarrow>
        facade (snd (pause pc w)) = facade w \<and> events (snd (pause pc w)) = events w)"
proof (cases "pc_pause pc (ctrl w)")
  case (Pair outcome c)
  show ?thesis
  proof (cases outcome)
    case None
    with Pair have "pause pc w = (None, emit Ev_pause (upd (updatePlaybackState False) (w\<lparr>ctrl := c\<rparr>)))"
      by (simp add: pause_def)
    with Pair None show ?thesis
      by (simp add: setter_defs)
  next
    case (Some e)
    with Pair have "pause pc w = (Some e, w\<lparr>ctrl := c\<rparr>)"
      by (simp add: pause_def)
    with Pair Some show ?thesis
      by (simp add: getState_def)
  qed
qed

theorem pause_outcome_witness:
  "fst (pc_pause keyframe_controller (ctrl ready_world)) = None
   \<and> fst (pause keyframe_controller ready_world) = None
   \<and> isPlaying (getState (facade (snd (pause keyframe_controller ready_world)))) = False
   \<and> events (snd (pause keyframe_controller ready_world)) = [Ev_pause]
   \<and> fst (pc_pause failing_controller (ctrl ready_world)) \<noteq> None
   \<and> facade (snd (pause failing_controller ready_world)) = facade ready_world"
proof -
  have ok: "fst (pc_pause keyframe_controller (ctrl ready_world)) = None"
    by (simp add: keyframe_controller_def)
  have bad: "fst (pc_pause failing_controller (ctrl ready_world)) \<noteq> None"
    by (simp add: failing_controller_def)
  have e: "events ready_world = []"
    by (simp add: ready_world_def)
  from pause_outcome [of keyframe_controller ready_world]
       pause_outcome [of failing_controller ready_world] ok bad e
  show ?thesis by simp
qed

section \<open>seek\<close>

text \<open>
  Claim C6. Whenever \<^verbatim>\<open>seek(time)\<close> fails, at the idle guard or in the controller, what the
  call tells the outside ends with these three, in this order: the snapshot in which the
  seeking flag is false and the error is not yet recorded; the snapshot that records the
  error, the same state with the error and the lifecycle tag set; the \<^verbatim>\<open>error\<close> event. Before
  them there is nothing (idle) or the snapshot with the flag set and the \<^verbatim>\<open>seeking\<close> event.
  The snapshots notified and the events emitted are those of this trace. The call then
  rejects, leaving the state of the error snapshot, the flag false.
\<close>

theorem failed_seek_clears_seeking:
  assumes "seek pc t w = (Some e, w')"
  shows "\<exists>pre s.
           trace w' = trace w @ pre @
             [Notified s, Notified (s\<lparr>state := Errored, error := Some e\<rparr>), Emitted (Ev_error e)]
         \<and> (pre = [] \<or>
             pre = [Notified ((getState (facade w))\<lparr>seeking := True\<rparr>), Emitted (Ev_seeking t)])
         \<and> seeking s = False
         \<and> error s = error (getState (facade w))
         \<and> notified (facade w') = notified (facade w) @ told_snapshots pre @
             [s, s\<lparr>state := Errored, error := Some e\<rparr>]
         \<and> events w' = events w @ told_events pre @ [Ev_error e]
         \<and> getState (facade w') = s\<lparr>state := Errored, error := Some e\<rparr>
         \<and> seeking (getState (facade w')) = False"
proof (cases "state (getState (facade w)) = Idle")
  case True
  with assms have "w' = handleError e (upd (updateSeekingState False) w)"
    by (auto simp: seek_def)
  then show ?thesis
    by (intro exI [of _ "[]"] exI [of _ "(cur (facade w))\<lparr>seeking := False\<rparr>"])
       (simp add: setter_defs)
next
  case False
  let ?w1 = "emit (Ev_seeking t) (upd (updateSeekingState True) w)"
  from assms False obtain c where
    "w' = handleError e (upd (updateSeekingState False) (?w1\<lparr>ctrl := c\<rparr>))"
    by (auto simp: seek_def Let_def split: prod.splits option.splits)
  then show ?thesis
    by (intro exI [of _ "[Notified ((cur (facade w))\<lparr>seeking := True\<rparr>), Emitted (Ev_seeking t)]"]
              exI [of _ "(cur (facade w))\<lparr>seeking := False\<rparr>"])
       (simp add: setter_defs)
qed

theorem failed_seek_clears_seeking_witness:
  "seek seek_failing_controller 5 (playing_world seek_failing_controller)
     = (Some (Error ''seek failed''),
        snd (seek seek_failing_controller 5 (playing_world seek_failing_controller)))
   \<and> seeking (getState (facade
         (snd (seek seek_failing_controller 5 (playing_world seek_failing_controller))))) = False
   \<and> trace (snd (seek seek_failing_controller 5 (playing_world seek_failing_controller)))
       = trace (playing_world seek_failing_controller) @
         [Notified ((getState (facade (playing_world seek_failing_controller)))\<lparr>seeking := True\<rparr>),
          Emitted (Ev_seeking 5),
          Notified ((getState (facade (playing_world seek_failing_controller)))\<lparr>seeking := False\<rparr>),
          Notified ((getState (facade (playing_world seek_failing_controller)))
                      \<lparr>seeking := False, state := Errored, error := Some (Error ''seek failed'')\<rparr>),
          Emitted (Ev_error (Error ''seek failed''))]"
proof -
  have st: "state (getState (facade (playing_world seek_failing_controller))) = Ready"
    by (simp add: world_defs)
  then have bad: "seek seek_failing_controller 5 (playing_world seek_failing_controller)
     = (Some (Error ''seek failed''),
        snd (seek seek_failing_controller 5 (playing_world seek_failing_controller)))"
    by (simp add: seek_def seek_failing_controller_def)
  from failed_seek_clears_seeking [OF bad]
  have q: "seeking (getState (facade
         (snd (seek seek_failing_controller 5 (playing_world seek_failing_controller))))) = False"
    by blast
  from st have tr: "trace (snd (seek seek_failing_controller 5 (playing_world seek_failing_controller)))
       = trace (playing_world seek_failing_controller) @
         [Notified ((getState (facade (playing_world seek_failing_controller)))\<lparr>seeking := True\<rparr>),
          Emitted (Ev_seeking 5),
          Notified ((getState (facade (playing_world seek_failing_controller)))\<lparr>seeking := False\<rparr>),
          Notified ((getState (facade (playing_world seek_failing_controller)))
                      \<lparr>seeking := False, state := Errored, error := Some (Error ''seek failed'')\<rparr>),
          Emitted (Ev_error (Error ''seek failed''))]"
    by (simp add: seek_def seek_failing_controller_def setter_defs)
  from bad q tr show ?thesis by simp
qed

text \<open>
  Claim C7. After a \<^verbatim>\<open>seek(time)\<close> that succeeds, the payload of \<^verbatim>\<open>seeked\<close> and the
  \<^verbatim>\<open>currentTime\<close> of the state are both what the controller's \<^verbatim>\<open>getCurrentTime()\<close> gives
  once its seek has completed, not the requested time. The witness asks for 10.3 seconds
  of a source with a key frame every two seconds and is told 10.
\<close>

theorem seek_reports_controller_position:
  assumes "seek pc t w = (None, w')"
  shows "ctrl w' = snd (pc_seek pc t (ctrl w))
       \<and> events w' = events w @ [Ev_seeking t, Ev_seeked (pc_getCurrentTime pc (ctrl w'))]
       \<and> currentTime (getState (facade w')) = pc_getCurrentTime pc (ctrl w')"
  using seek_success [OF assms] by (simp add: getState_def)

theorem seek_reports_controller_position_witness:
  "seek keyframe_controller (103 / 10) ready_world
     = (None, snd (seek keyframe_controller (103 / 10) ready_world))
   \<and> events (snd (seek keyframe_controller (103 / 10) ready_world))
       = [Ev_seeking (103 / 10), Ev_seeked 10]
   \<and> currentTime (getState (facade (snd (seek keyframe_controller (103 / 10) ready_world)))) = 10"
proof -
  have ok: "seek keyframe_controller (103 / 10) ready_world
     = (None, snd (seek keyframe_controller (103 / 10) ready_world))"
    by (simp add: seek_def keyframe_controller_def ready_world_def idle_state_def setter_defs)
  have c: "ctrl ready_world = 7"
    by (simp add: ready_world_def)
  have e: "events ready_world = []"
    by (simp add: ready_world_def)
  from seek_reports_controller_position [OF ok] ok show ?thesis
    by (simp add: keyframe_controller_def c e)
qed

section \<open>stop\<close>

text \<open>
  Claim C8, as stated: a successful \<^verbatim>\<open>stop()\<close> leaves \<^verbatim>\<open>currentTime\<close> at 0. The time
  stored is the controller's position after its seek to 0. On a player that has loaded
  the movie and is playing it, with a source whose first frame is at one second, \<^verbatim>\<open>stop()\<close>
  succeeds and leaves it at 1.
\<close>

theorem stop_counterexample:
  "fst (perform late_start_controller (Load mixed_env ''movie.mp4'' plain_options) (new_player 0))
     = None
   \<and> fst (perform late_start_controller Play (loaded_world late_start_controller)) = None
   \<and> isPlaying (getState (facade (playing_world late_start_controller))) = True
   \<and> fst (stop late_start_controller (playing_world late_start_controller)) = None
   \<and> currentTime (getState (facade (snd (stop late_start_controller
         (playing_world late_start_controller))))) = 1"
  by (simp add: world_defs)

lemma stop_success:
  assumes "stop pc w = (None, w')"
  shows "pc_pause pc (ctrl w) = (None, snd (pc_pause pc (ctrl w)))"
    and "pc_seek pc 0 (snd (pc_pause pc (ctrl w))) = (None, ctrl w')"
    and "cur (facade w') =
           (cur (facade w))\<lparr>isPlaying := False, seeking := False,
                             currentTime := pc_getCurrentTime pc (ctrl w')\<rparr>"
    and "events w' = events w @ [Ev_pause, Ev_seeking 0, Ev_seeked (pc_getCurrentTime pc (ctrl w'))]"
proof -
  from assms obtain w1 where p: "pause pc w = (None, w1)" and k: "seek pc 0 w1 = (None, w')"
    by (auto simp: stop_def split: prod.splits option.splits)
  from p have pp: "pc_pause pc (ctrl w) = (None, ctrl w1)"
    and w1: "cur (facade w1) = (cur (facade w))\<lparr>isPlaying := False\<rparr>"
      "events w1 = events w @ [Ev_pause]"
    by (auto simp: pause_def setter_defs split: prod.splits option.splits)
  from pp show "pc_pause pc (ctrl w) = (None, snd (pc_pause pc (ctrl w)))"
    by simp
  from k have ks: "pc_seek pc 0 (ctrl w1) = (None, ctrl w')"
    by (auto simp: seek_def Let_def split: if_splits prod.splits option.splits)
  with pp show "pc_seek pc 0 (snd (pc_pause pc (ctrl w))) = (None, ctrl w')"
    by simp
  from seek_success(3) [OF k] w1 show "cur (facade w') =
           (cur (facade w))\<lparr>isPlaying := False, seeking := False,
                             currentTime := pc_getCurrentTime pc (ctrl w')\<rparr>"
    by simp
  from seek_success(1) [OF k] w1 show
    "events w' = events w @ [Ev_pause, Ev_seeking 0, Ev_seeked (pc_getCurrentTime pc (ctrl w'))]"
    by simp
qed

text \<open>
  Claim C8, amended. From any state, a successful \<^verbatim>\<open>stop()\<close> leaves the controller as its
  pause and then its seek to 0 leave it, \<^verbatim>\<open>isPlaying\<close> false, and \<^verbatim>\<open>currentTime\<close> equal to the
  position of that controller, hence 0 whenever the controller lands on 0; it emits
  \<^verbatim>\<open>pause\<close>, \<^verbatim>\<open>seeking\<close> with 0 and \<^verbatim>\<open>seeked\<close> with that position. An error of the pause
  step, or of the seek step after a pause that returned, is the error \<^verbatim>\<open>stop()\<close> rejects
  with.
\<close>

theorem stop_outcome:
  "(stop pc w = (None, w') \<longrightarrow>
      ctrl w' = snd (pc_seek pc 0 (snd (pc_pause pc (ctrl w))))
    \<and> isPlaying (getState (facade w')) = False
    \<and> currentTime (getState (facade w'))
        = pc_getCurrentTime pc (snd (pc_seek pc 0 (snd (pc_pause pc (ctrl w)))))
    \<and> (pc_getCurrentTime pc (snd (pc_seek pc 0 (snd (pc_pause pc (ctrl w))))) = 0
          \<longrightarrow> currentTime (getState (facade w')) = 0)
    \<and> events w' = events w @
        [Ev_pause, Ev_seeking 0,
         Ev_seeked (pc_getCurrentTime pc (snd (pc_seek pc 0 (snd (pc_pause pc (ctrl w))))))])
   \<and> (fst (pause pc w) = Some e \<longrightarrow> fst (stop pc w) = Some e)
   \<and> (fst (pause pc w) = None \<and> fst (seek pc 0 (snd (pause pc w))) = Some e \<longrightarrow>
        fst (stop pc w) = Some e)"
proof (intro conjI impI)
  assume s: "stop pc w = (None, w')"
  note ok = stop_success [OF s]
  from ok(2) show c: "ctrl w' = snd (pc_seek pc 0 (snd (pc_pause pc (ctrl w))))"
    by simp
  from ok(3) show "isPlaying (getState (facade w')) = False"
    by (simp add: getState_def)
  from ok(3) c show t: "currentTime (getState (facade w'))
        = pc_getCurrentTime pc (snd (pc_seek pc 0 (snd (pc_pause pc (ctrl w)))))"
    by (simp add: getState_def)
  from ok(4) c show "events w' = events w @
        [Ev_pause, Ev_seeking 0,
         Ev_seeked (pc_getCurrentTime pc (snd (pc_seek pc 0 (snd (pc_pause pc (ctrl w))))))]"
    by simp
  assume "pc_getCurrentTime pc (snd (pc_seek pc 0 (snd (pc_pause pc (ctrl w))))) = 0"
  with t show "currentTime (getState (facade w')) = 0"
    by simp
next
  assume "fst (pause pc w) = Some e"
  then show "fst (stop pc w) = Some e"
    by (auto simp: stop_def split: prod.splits option.splits)
next
  assume "fst (pause pc w) = None \<and> fst (seek pc 0 (snd (pause pc w))) = Some e"
  then show "fst (stop pc w) = Some e"
    by (auto simp: stop_def split: prod.splits option.splits)
qed

theorem stop_outcome_witness:
  "stop keyframe_controller (playing_world keyframe_controller)
     = (None, snd (stop keyframe_controller (playing_world keyframe_controller)))
   \<and> pc_getCurrentTime keyframe_controller (snd (pc_seek keyframe_controller 0
         (snd (pc_pause keyframe_controller (ctrl (playing_world keyframe_controller)))))) = 0
   \<and> isPlaying (getState (facade (snd (stop keyframe_controller
         (playing_world keyframe_controller))))) = False
   \<and> currentTime (getState (facade (snd (stop keyframe_controller
         (playing_world keyframe_controller))))) = 0
   \<and> fst (pause failing_controller (loaded_world failing_controller))
       = Some (Error ''decode failed'')
   \<and> fst (stop failing_controller (loaded_world failing_controller))
       = Some (Error ''decode failed'')
   \<and> fst (pause seek_failing_controller (playing_world seek_failing_controller)) = None
   \<and> fst (seek seek_failing_controller 0
         (snd (pause seek_failing_controller (playing_world seek_failing_controller))))
       = Some (Error ''seek failed'')
   \<and> fst (stop seek_failing_controller (playing_world seek_failing_controller))
       = Some (Error ''seek failed'')"
proof -
  have "fst (stop keyframe_controller (playing_world keyframe_controller)) = None"
    by (simp add: world_defs)
  then have ok: "stop keyframe_controller (playing_world keyframe_controller)
     = (None, snd (stop keyframe_controller (playing_world keyframe_controller)))"
    by (simp add: prod_eq_iff)
  have pos: "pc_getCurrentTime keyframe_controller (snd (pc_seek keyframe_controller 0
         (snd (pc_pause keyframe_controller (ctrl (playing_world keyframe_controller)))))) = 0"
    by (simp add: keyframe_controller_def)
  have p1: "fst (pause failing_controller (loaded_world failing_controller))
       = Some (Error ''decode failed'')"
    by (simp add: pause_def failing_controller_def)
  have p2: "fst (pause seek_failing_controller (playing_world seek_failing_controller)) = None"
    by (simp add: pause_def seek_failing_controller_def)
  have k2: "fst (seek seek_failing_controller 0
         (snd (pause seek_failing_controller (playing_world seek_failing_controller))))
       = Some (Error ''seek failed'')"
    by (simp add: world_defs)
  from stop_outcome [of keyframe_controller "playing_world keyframe_controller"
         "snd (stop keyframe_controller (playing_world keyframe_controller))"] ok pos
       stop_outcome [of failing_controller "loaded_world failing_controller" _
         "Error ''decode failed''"] p1
       stop_outcome [of seek_failing_controller "playing_world seek_failing_controller" _
         "Error ''seek failed''"] p2 k2
  show ?thesis by simp
qed

section \<open>load\<close>

lemma load_try_committed:
  assumes "load_mediaInfo env source = Some mi"
  shows "load_try pc env source options w =
           (case initial_tracks env of
              Inl e \<Rightarrow> (Some e, commit pc env (mi_duration mi) mi (emit Ev_loadstart (upd updateLoadingState (upd reset w))))
            | Inr res \<Rightarrow> load_decide pc options mi res (commit pc env (mi_duration mi) mi (emit Ev_loadstart (upd updateLoadingState (upd reset w)))))"
  using assms
  by (auto simp: load_try_def load_mediaInfo_def make_mediaInfo_def Let_def
           split: sum.splits option.splits prod.splits)

lemma load_try_uncommitted:
  assumes "load_mediaInfo env source = None"
  shows "\<exists>e. load_try pc env source options w =
           (Some e, emit Ev_loadstart (upd updateLoadingState (upd reset w)))"
  using assms
  by (auto simp: load_try_def load_mediaInfo_def Let_def
           split: sum.splits option.splits prod.splits)

lemma cur_commit:
  "cur (facade (commit pc env d mi (emit Ev_loadstart (upd updateLoadingState (upd reset w))))) =
     idle_state\<lparr>state := Loading, duration := Some d, mediaInfo := Some mi,
                tracks := load_tracks env\<rparr>"
  by (simp add: commit_def Let_def setter_defs load_tracks_def)

lemma events_commit:
  "events (commit pc env d mi (emit Ev_loadstart (upd updateLoadingState (upd reset w)))) =
     events w @ [Ev_loadstart]"
  by (simp add: commit_def Let_def)

lemma notified_commit:
  "notified (facade (commit pc env d mi (emit Ev_loadstart (upd updateLoadingState (upd reset w))))) =
     notified (facade w) @
       [idle_state, idle_state\<lparr>state := Loading\<rparr>,
        idle_state\<lparr>state := Loading, duration := Some d\<rparr>,
        idle_state\<lparr>state := Loading, duration := Some d, mediaInfo := Some mi\<rparr>,
        idle_state\<lparr>state := Loading, duration := Some d, mediaInfo := Some mi,
                   tracks := load_tracks env\<rparr>]"
  by (simp add: commit_def Let_def setter_defs load_tracks_def)

lemma initial_tracks_unsupported:
  assumes "(tm_getPrimaryVideoTrack env = None \<and> tm_getPrimaryAudioTrack env = None
              \<and> warning = '''')
         \<or> ((tm_getPrimaryVideoTrack env \<noteq> None \<or> tm_getPrimaryAudioTrack env \<noteq> None)
              \<and> (\<exists>res. ts_setupInitialTracks env (tm_getPrimaryVideoTrack env)
                          (tm_getPrimaryAudioTrack env) = Inr res
                      \<and> \<not> videoSupported res \<and> \<not> audioSupported res
                      \<and> warning = warningMessage res))"
  shows "initial_tracks env = Inr (warning, False, False)"
  using assms by (auto simp: initial_tracks_def Let_def)

text \<open>
  Claim C1. Take a load that gets as far as the switcher (the source gave an input, the
  tracks were initialised and the four metadata reads succeeded, so that the media info
  \<open>mi\<close> is committed), and in which either both primary tracks are absent or the switcher
  reports neither video nor audio supported. Then \<^verbatim>\<open>load()\<close> rejects with an error whose
  message is the switcher's warning text when that text is not empty and the default
  \<^verbatim>\<open>No audio or video track found.\<close> otherwise; the lifecycle state is \<^verbatim>\<open>error\<close> and the state
  holds that error; the committed media info is still in the state; \<^verbatim>\<open>isPlaying\<close> is false;
  and the call emitted \<^verbatim>\<open>loadstart\<close> and \<^verbatim>\<open>error\<close> only.
\<close>

theorem load_no_playable_track:
  assumes "load_mediaInfo env source = Some mi"
    and "(tm_getPrimaryVideoTrack env = None \<and> tm_getPrimaryAudioTrack env = None
              \<and> warning = '''')
         \<or> ((tm_getPrimaryVideoTrack env \<noteq> None \<or> tm_getPrimaryAudioTrack env \<noteq> None)
              \<and> (\<exists>res. ts_setupInitialTracks env (tm_getPrimaryVideoTrack env)
                          (tm_getPrimaryAudioTrack env) = Inr res
                      \<and> \<not> videoSupported res \<and> \<not> audioSupported res
                      \<and> warning = warningMessage res))"
    and "msg = (if warning = '''' then ''No audio or video track found.'' else warning)"
    and "w' = snd (load pc env source options w)"
  shows "fst (load pc env source options w) = Some (Error msg)
       \<and> state (getState (facade w')) = Errored
       \<and> error (getState (facade w')) = Some (Error msg)
       \<and> mediaInfo (getState (facade w')) = Some mi
       \<and> isPlaying (getState (facade w')) = False
       \<and> events w' = events w @ [Ev_loadstart, Ev_error (Error msg)]"
proof -
  let ?w1 = "commit pc env (mi_duration mi) mi
               (emit Ev_loadstart (upd updateLoadingState (upd reset w)))"
  have "load_try pc env source options w = (Some (Error msg), ?w1)"
    using load_try_committed [OF assms(1), of pc options w]
      initial_tracks_unsupported [OF assms(2)] assms(3)
    by (simp add: load_decide_def)
  then have "load pc env source options w = (Some (Error msg), handleError (Error msg) ?w1)"
    by (simp add: load_def)
  with assms(4) cur_commit [of pc env "mi_duration mi" mi w]
    events_commit [of pc env "mi_duration mi" mi w]
  show ?thesis
    by (simp add: getState_def updateError_def idle_state_def)
qed

theorem load_no_playable_track_witness:
  "load_mediaInfo hevc_env ''movie.mp4'' = Some example_mediaInfo
   \<and> fst (load keyframe_controller hevc_env ''movie.mp4'' plain_options fresh_world)
       = Some (Error ''Unsupported video codec. Unsupported audio codec.'')
   \<and> state (getState (facade (snd (load keyframe_controller hevc_env ''movie.mp4''
         plain_options fresh_world)))) = Errored
   \<and> mediaInfo (getState (facade (snd (load keyframe_controller hevc_env ''movie.mp4''
         plain_options fresh_world)))) = Some example_mediaInfo
   \<and> isPlaying (getState (facade (snd (load keyframe_controller hevc_env ''movie.mp4''
         plain_options fresh_world)))) = False"
proof -
  have m: "load_mediaInfo hevc_env ''movie.mp4'' = Some example_mediaInfo"
    by (simp add: load_defs example_defs)
  have r: "(tm_getPrimaryVideoTrack hevc_env = None \<and> tm_getPrimaryAudioTrack hevc_env = None
              \<and> ''Unsupported video codec. Unsupported audio codec.'' = '''')
         \<or> ((tm_getPrimaryVideoTrack hevc_env \<noteq> None \<or> tm_getPrimaryAudioTrack hevc_env \<noteq> None)
              \<and> (\<exists>res. ts_setupInitialTracks hevc_env (tm_getPrimaryVideoTrack hevc_env)
                          (tm_getPrimaryAudioTrack hevc_env) = Inr res
                      \<and> \<not> videoSupported res \<and> \<not> audioSupported res
                      \<and> ''Unsupported video codec. Unsupported audio codec.''
                          = warningMessage res))"
    by (simp add: example_defs)
  from load_no_playable_track [OF m r refl refl, of keyframe_controller plain_options fresh_world]
    m show ?thesis by simp
qed

lemma load_trailing_events:
  assumes "load_trailing pc options w = (None, w')"
  shows "\<exists>post. events w' = events w @ post \<and> filter load_sequence_event post = []"
  using assms
  by (auto simp: load_trailing_def dest!: play_success(1) seek_success(1)
           split: if_splits prod.splits option.splits)

lemma load_decide_events:
  assumes "load_decide pc options mi res w = (None, w')"
  shows "\<exists>new. events w' = events w @ new \<and>
           filter load_sequence_event new =
             [Ev_loadedmetadata mi, Ev_loadeddata, Ev_canplay, Ev_canplaythrough]"
proof -
  obtain warning v a where res: "res = (warning, v, a)"
    by (cases res) auto
  let ?w1 = "if warning \<noteq> '''' \<and> (v \<or> a) then emit (Ev_warning (trim warning)) w else w"
  let ?w3 = "emit Ev_canplaythrough (emit Ev_canplay (emit Ev_loadeddata
               (emit (Ev_loadedmetadata mi) (upd (updateReadyState True True) ?w1))))"
  from assms res have t: "load_trailing pc options ?w3 = (None, w')"
    by (auto simp: load_decide_def Let_def split: if_splits)
  from load_trailing_events [OF t] obtain post where
    p: "events w' = events ?w3 @ post" "filter load_sequence_event post = []"
    by blast
  show ?thesis
  proof (cases "warning \<noteq> '''' \<and> (v \<or> a)")
    case True
    with p show ?thesis
      by (intro exI [of _ "[Ev_warning (trim warning), Ev_loadedmetadata mi, Ev_loadeddata,
            Ev_canplay, Ev_canplaythrough] @ post"]) simp
  next
    case False
    with p show ?thesis
      by (intro exI [of _ "[Ev_loadedmetadata mi, Ev_loadeddata,
            Ev_canplay, Ev_canplaythrough] @ post"]) auto
  qed
qed

text \<open>
  Claim C3. Of the events a successful \<^verbatim>\<open>load()\<close> emits, those of the load sequence or
  \<^verbatim>\<open>error\<close> are exactly \<^verbatim>\<open>loadstart\<close>, \<^verbatim>\<open>loadedmetadata\<close> (with the media info of the load),
  \<^verbatim>\<open>loadeddata\<close>, \<^verbatim>\<open>canplay\<close>, \<^verbatim>\<open>canplaythrough\<close>, in this order: each once, and no \<^verbatim>\<open>error\<close>
  anywhere among the events of the call.
\<close>

theorem load_success_event_order:
  assumes "load pc env source options w = (None, w')"
  shows "\<exists>mi new. load_mediaInfo env source = Some mi
           \<and> events w' = events w @ new
           \<and> filter load_sequence_event new =
               [Ev_loadstart, Ev_loadedmetadata mi, Ev_loadeddata, Ev_canplay, Ev_canplaythrough]"
proof -
  from assms have t: "load_try pc env source options w = (None, w')"
    by (auto simp: load_def split: prod.splits option.splits)
  show ?thesis
  proof (cases "load_mediaInfo env source")
    case None
    from load_try_uncommitted [OF None, of pc options w] t show ?thesis
      by auto
  next
    case (Some mi)
    let ?w1 = "commit pc env (mi_duration mi) mi
                 (emit Ev_loadstart (upd updateLoadingState (upd reset w)))"
    from load_try_committed [OF Some, of pc options w] t
    obtain res where d: "load_decide pc options mi res ?w1 = (None, w')"
      by (auto split: sum.splits)
    from load_decide_events [OF d] obtain new where
      n: "events w' = events ?w1 @ new"
         "filter load_sequence_event new =
            [Ev_loadedmetadata mi, Ev_loadeddata, Ev_canplay, Ev_canplaythrough]"
      by blast
    with Some show ?thesis
      by (intro exI [of _ mi] exI [of _ "Ev_loadstart # new"]) (simp add: events_commit)
  qed
qed

theorem load_success_event_order_witness:
  "load keyframe_controller mixed_env ''movie.mp4'' eager_options fresh_world
     = (None, snd (load keyframe_controller mixed_env ''movie.mp4'' eager_options fresh_world))
   \<and> filter load_sequence_event
       (events (snd (load keyframe_controller mixed_env ''movie.mp4'' eager_options fresh_world)))
       = [Ev_loadstart, Ev_loadedmetadata example_mediaInfo, Ev_loadeddata, Ev_canplay,
          Ev_canplaythrough]"
proof -
  have ok: "fst (load keyframe_controller mixed_env ''movie.mp4'' eager_options fresh_world) = None"
    by (simp add: load_defs example_defs play_def seek_def setter_defs idle_state_def
          upd_def emit_def)
  then have ok': "load keyframe_controller mixed_env ''movie.mp4'' eager_options fresh_world
     = (None, snd (load keyframe_controller mixed_env ''movie.mp4'' eager_options fresh_world))"
    by (simp add: prod_eq_iff)
  have m: "load_mediaInfo mixed_env ''movie.mp4'' = Some example_mediaInfo"
    by (simp add: load_defs example_defs)
  have e: "events fresh_world = []"
    by (simp add: fresh_world_def)
  from load_success_event_order [OF ok'] m e ok' show ?thesis
    by auto
qed

section \<open>Media info and tracks in the snapshots\<close>

text \<open>The pieces of a load, run one after the other, are the load.\<close>

lemma load_to_end_is_load:
  "load_to_end pc env source options w =
     (Settled (fst (load pc env source options w)), snd (load pc env source options w))"
  by (auto simp: load_to_end_def load_start_def load_def load_try_def load_settle_def
        initial_tracks_def Let_def
      split: sum.splits option.splits prod.splits)

text \<open>
  Claim C4, as stated: no snapshot shows the media info of a load without the tracks of
  the same load, both being written in one step. They are written by two setters, each
  notifying. Of the six snapshots of a single load, the fourth shows the media info with
  the track lists still empty, though the load has a video and an audio track. And when
  a second load completes while a first one waits for its source, the first one, resumed,
  notifies a snapshot with its own media info and the tracks of the second.
\<close>

theorem mediaInfo_without_tracks_counterexample:
  "length (notified (facade (snd (load keyframe_controller mixed_env ''movie.mp4''
      plain_options fresh_world)))) = 6
   \<and> mediaInfo (notified (facade (snd (load keyframe_controller mixed_env ''movie.mp4''
        plain_options fresh_world))) ! 3) = Some example_mediaInfo
   \<and> load_mediaInfo mixed_env ''movie.mp4'' = Some example_mediaInfo
   \<and> tracks (notified (facade (snd (load keyframe_controller mixed_env ''movie.mp4''
        plain_options fresh_world))) ! 3) = ([], [], [])
   \<and> load_tracks mixed_env = ([Track ''v1'' ''hevc''], [Track ''a1'' ''aac''], [])
   \<and> length (notified (facade overlapped_world)) = 11
   \<and> mediaInfo (notified (facade overlapped_world) ! 9) = load_mediaInfo webm_env ''clip.webm''
   \<and> load_mediaInfo webm_env ''clip.webm'' \<noteq> load_mediaInfo mixed_env ''movie.mp4''
   \<and> tracks (notified (facade overlapped_world) ! 9) = load_tracks mixed_env
   \<and> load_tracks webm_env = ([Track ''v2'' ''vp9''], [Track ''a2'' ''opus''], [])"
  by (simp add: load_defs example_defs setter_defs idle_state_def upd_def emit_def
        overlapped_world_def load_start_def webm_env_def webm_input_def)

lemma paired_mono: "set L \<subseteq> set L' \<Longrightarrow> paired L s \<Longrightarrow> paired L' s"
  by (auto simp: paired_def)

lemma awaiting_tracks_mono:
  "set L \<subseteq> set L' \<Longrightarrow> awaiting_tracks L s s' \<Longrightarrow> awaiting_tracks L' s s'"
  by (auto simp: awaiting_tracks_def)

lemma well_paired_mono: "set L \<subseteq> set L' \<Longrightarrow> well_paired L ns \<Longrightarrow> well_paired L' ns"
  by (induction L ns rule: well_paired.induct)
     (auto intro: paired_mono awaiting_tracks_mono)

lemma all_paired_mono: "set L \<subseteq> set L' \<Longrightarrow> all_paired L w \<Longrightarrow> all_paired L' w"
  by (auto simp: all_paired_def intro: paired_mono well_paired_mono)

lemma well_paired_snoc:
  "well_paired L ns \<Longrightarrow> paired L s \<Longrightarrow> well_paired L (ns @ [s])"
  by (induction L ns rule: well_paired.induct) auto

lemma well_paired_snoc2:
  "well_paired L ns \<Longrightarrow> awaiting_tracks L s s' \<Longrightarrow> paired L s' \<Longrightarrow>
     well_paired L (ns @ [s, s'])"
  by (induction L ns rule: well_paired.induct) auto

lemma well_paired_nth:
  "well_paired L ns \<Longrightarrow> i < length ns \<Longrightarrow>
     paired L (ns ! i) \<or> (Suc i < length ns \<and> awaiting_tracks L (ns ! i) (ns ! Suc i))"
proof (induction L ns arbitrary: i rule: well_paired.induct)
  case (1 loads)
  then show ?case by simp
next
  case (2 loads s)
  then show ?case by simp
next
  case (3 loads s s' ss)
  show ?case
  proof (cases i)
    case 0
    with "3.prems" show ?thesis by auto
  next
    case (Suc j)
    with "3.prems" "3.IH" [of j] show ?thesis by auto
  qed
qed

lemma all_paired_emit [simp]: "all_paired L (emit ev w) = all_paired L w"
  by (simp add: all_paired_def)

lemma all_paired_ctrl [simp]: "all_paired L (w\<lparr>ctrl := c\<rparr>) = all_paired L w"
  by (simp add: all_paired_def)

lemma all_paired_setters:
  assumes "all_paired L w"
  shows "all_paired L (upd (updatePlaybackState b) w)"
    and "all_paired L (upd (updateSeekingState b) w)"
    and "all_paired L (upd (updateTime t) w)"
    and "all_paired L (upd (updateError e) w)"
    and "all_paired L (upd (updateReadyState b b') w)"
    and "all_paired L (upd updateLoadingState w)"
    and "all_paired L (upd (updateDuration d) w)"
    and "all_paired L (upd reset w)"
  using assms
  by (simp_all add: all_paired_def setter_defs well_paired_snoc paired_def idle_state_def)

lemma all_paired_handleError: "all_paired L w \<Longrightarrow> all_paired L (handleError e w)"
  by (simp add: handleError_def all_paired_setters)

lemma all_paired_play: "all_paired L w \<Longrightarrow> all_paired L (snd (play pc w))"
  by (simp add: play_def all_paired_setters all_paired_handleError split: prod.splits option.splits)

lemma all_paired_pause: "all_paired L w \<Longrightarrow> all_paired L (snd (pause pc w))"
  by (simp add: pause_def all_paired_setters split: prod.splits option.splits)

lemma all_paired_seek: "all_paired L w \<Longrightarrow> all_paired L (snd (seek pc t w))"
  by (simp add: seek_def Let_def all_paired_setters all_paired_handleError
           split: prod.splits option.splits)

lemma all_paired_stop: "all_paired L w \<Longrightarrow> all_paired L (snd (stop pc w))"
  using all_paired_pause [of L w pc] all_paired_seek [of L "snd (pause pc w)" pc 0]
  by (auto simp: stop_def all_paired_handleError split: prod.splits option.splits)

lemma all_paired_load_trailing:
  "all_paired L w \<Longrightarrow> all_paired L (snd (load_trailing pc options w))"
  using all_paired_play [of L w pc] all_paired_seek [of L "snd (play pc w)" pc]
    all_paired_seek [of L w pc]
  by (auto simp: load_trailing_def split: prod.splits option.splits)

lemma all_paired_load_decide:
  "all_paired L w \<Longrightarrow> all_paired L (snd (load_decide pc options mi res w))"
  by (auto simp: load_decide_def Let_def all_paired_setters all_paired_load_trailing
           split: prod.splits)

lemma paired_none: "mediaInfo s = None \<Longrightarrow> tracks s = ([], [], []) \<Longrightarrow> paired L s"
  by (simp add: paired_def)

lemma paired_load:
  assumes "(env, source) \<in> set L" and "load_mediaInfo env source = Some mi"
    and "mediaInfo s = Some mi" and "tracks s = load_tracks env"
  shows "paired L s"
  unfolding paired_def using assms by (intro disjI2 bexI [of _ "(env, source)"]) auto

lemma awaiting_tracks_load:
  assumes "(env, source) \<in> set L" and "load_mediaInfo env source = Some mi"
    and "mediaInfo s = Some mi" and "tracks s = ([], [], [])"
    and "s' = s\<lparr>tracks := load_tracks env\<rparr>"
  shows "awaiting_tracks L s s'"
  unfolding awaiting_tracks_def using assms by (intro bexI [of _ "(env, source)"]) auto

lemma all_paired_commit:
  assumes "all_paired L w" and "(env, source) \<in> set L"
    and "load_mediaInfo env source = Some mi"
  shows "all_paired L (commit pc env d mi (emit Ev_loadstart (upd updateLoadingState (upd reset w))))"
proof -
  let ?a = "idle_state\<lparr>state := Loading, duration := Some d\<rparr>"
  let ?b = "idle_state\<lparr>state := Loading, duration := Some d, mediaInfo := Some mi\<rparr>"
  let ?c = "idle_state\<lparr>state := Loading, duration := Some d, mediaInfo := Some mi,
                   tracks := load_tracks env\<rparr>"
  have p: "paired L idle_state" "paired L (idle_state\<lparr>state := Loading\<rparr>)" "paired L ?a"
    by (rule paired_none; simp add: idle_state_def)+
  have b: "awaiting_tracks L ?b ?c"
    by (rule awaiting_tracks_load [OF assms(2,3)]) (simp_all add: idle_state_def)
  have c: "paired L ?c"
    by (rule paired_load [OF assms(2,3)]) simp_all
  from assms(1) have "well_paired L (notified (facade w))"
    by (simp add: all_paired_def)
  then have "well_paired L (notified (facade w) @ [idle_state])"
    using p(1) by (rule well_paired_snoc)
  then have "well_paired L ((notified (facade w) @ [idle_state]) @ [idle_state\<lparr>state := Loading\<rparr>])"
    using p(2) by (rule well_paired_snoc)
  then have "well_paired L (((notified (facade w) @ [idle_state])
      @ [idle_state\<lparr>state := Loading\<rparr>]) @ [?a])"
    using p(3) by (rule well_paired_snoc)
  then have "well_paired L ((((notified (facade w) @ [idle_state])
      @ [idle_state\<lparr>state := Loading\<rparr>]) @ [?a]) @ [?b, ?c])"
    using b c by (rule well_paired_snoc2)
  with c show ?thesis
    by (simp add: all_paired_def notified_commit cur_commit)
qed

lemma all_paired_load:
  assumes "all_paired L w" and "(env, source) \<in> set L"
  shows "all_paired L (snd (load pc env source options w))"
proof (cases "load_mediaInfo env source")
  case None
  from load_try_uncommitted [OF None, of pc options w] assms(1) show ?thesis
    by (auto simp: load_def all_paired_handleError all_paired_setters)
next
  case (Some mi)
  let ?w1 = "commit pc env (mi_duration mi) mi
               (emit Ev_loadstart (upd updateLoadingState (upd reset w)))"
  have c: "all_paired L ?w1"
    by (rule all_paired_commit [OF assms Some])
  show ?thesis
  proof (cases "initial_tracks env")
    case (Inl e)
    with load_try_committed [OF Some, of pc options w] c show ?thesis
      by (simp add: load_def all_paired_handleError)
  next
    case (Inr res)
    with load_try_committed [OF Some, of pc options w]
    have "load_try pc env source options w = load_decide pc options mi res ?w1"
      by simp
    with all_paired_load_decide [OF c, of pc options mi res] show ?thesis
      by (auto simp: load_def all_paired_handleError split: prod.splits option.splits)
  qed
qed

lemma all_paired_perform:
  assumes "all_paired L w"
  shows "all_paired (L @ loads_of [c]) (snd (perform pc c w))"
proof (cases c)
  case (Load env source options)
  have "all_paired (L @ [(env, source)]) w"
    by (rule all_paired_mono [OF _ assms]) auto
  then have "all_paired (L @ [(env, source)]) (snd (load pc env source options w))"
    by (rule all_paired_load) simp
  with Load show ?thesis by simp
qed (use assms in \<open>simp_all add: all_paired_play all_paired_pause all_paired_seek all_paired_stop\<close>)

lemma loads_of_Cons: "loads_of (c # cs) = loads_of [c] @ loads_of cs"
  by (cases c) simp_all

lemma all_paired_run:
  "all_paired L w \<Longrightarrow> all_paired (L @ loads_of cs) (run pc cs w)"
proof (induction cs arbitrary: L w)
  case Nil
  then show ?case by simp
next
  case (Cons c cs)
  from Cons.IH [OF all_paired_perform [OF Cons.prems, of c pc]] show ?case
    by (simp add: loads_of_Cons [of c cs])
qed

lemma all_paired_new_player: "all_paired [] (new_player c)"
  by (simp add: all_paired_def new_player_def paired_def idle_state_def)

text \<open>
  Claim C4, amended. After any sequence of calls on a new player, each completing before
  the next starts, the state is paired: it shows no media info and no tracks, or the
  media info of one of the loads with the tracks of that same load. So is every snapshot
  a subscriber was given, but for the one that \<^verbatim>\<open>updateMediaInfo\<close> notifies: it shows the
  media info of a load with the track lists still empty, and the very next snapshot is
  the same state with the tracks of that load.
\<close>

theorem snapshots_paired:
  "paired (loads_of calls) (getState (facade (run pc calls (new_player c))))
   \<and> (\<forall>i < length (notified (facade (run pc calls (new_player c)))).
         paired (loads_of calls) (notified (facade (run pc calls (new_player c))) ! i)
       \<or> (Suc i < length (notified (facade (run pc calls (new_player c))))
          \<and> awaiting_tracks (loads_of calls)
               (notified (facade (run pc calls (new_player c))) ! i)
               (notified (facade (run pc calls (new_player c))) ! Suc i)))"
proof -
  have "all_paired (loads_of calls) (run pc calls (new_player c))"
    using all_paired_run [OF all_paired_new_player, of calls pc c] by simp
  then show ?thesis
    by (auto simp: all_paired_def getState_def dest: well_paired_nth)
qed

theorem snapshots_paired_witness:
  "3 < length (notified (facade (playing_world keyframe_controller)))
   \<and> \<not> paired [(mixed_env, ''movie.mp4'')]
          (notified (facade (playing_world keyframe_controller)) ! 3)
   \<and> awaiting_tracks [(mixed_env, ''movie.mp4'')]
          (notified (facade (playing_world keyframe_controller)) ! 3)
          (notified (facade (playing_world keyframe_controller)) ! Suc 3)
   \<and> paired [(mixed_env, ''movie.mp4'')]
          (getState (facade (playing_world keyframe_controller)))"
proof -
  have len: "3 < length (notified (facade (playing_world keyframe_controller)))"
    by (simp add: playing_world_def load_defs example_defs setter_defs idle_state_def upd_def
          emit_def new_player_def play_def)
  have n: "\<not> paired [(mixed_env, ''movie.mp4'')]
          (notified (facade (playing_world keyframe_controller)) ! 3)"
    by (simp add: playing_world_def load_defs example_defs setter_defs idle_state_def upd_def
          emit_def new_player_def play_def paired_def)
  from snapshots_paired [of "[Load mixed_env ''movie.mp4'' plain_options, Play]"
         keyframe_controller 0] len n
  show ?thesis
    by (auto simp: playing_world_def)
qed

section \<open>Canvas2DRenderer.render\<close>

lemmas renderer_defs =
  blank_context_def example_renderer_def example_source_def empty_source_def
  new_renderer_def initialize_def isReady_def dispose_def

lemma render_drawn:
  assumes "fst (render rnd throws source r)"
  obtains c dx dy destW destH where
    "ctx r = Some c" and "isInitialized r"
    and "0 < width source" "0 < height source"
    and "0 < width (canvas r)" "0 < height (canvas r)"
    and "letterbox rnd (width (canvas r)) (height (canvas r)) (width source) (height source)
           = (dx, dy, destW, destH)"
    and "snd (render rnd throws source r) =
           r\<lparr>ctx := Some (c\<lparr>fillStyle := ''black'',
                  drawn := drawn c @
                    [FillRect 0 0 (int (width (canvas r))) (int (height (canvas r))),
                     DrawImage source 0 0 (int (width source)) (int (height source))
                       dx dy destW destH]\<rparr>)\<rparr>"
proof -
  obtain dx dy destW destH where
    l: "letterbox rnd (width (canvas r)) (height (canvas r)) (width source) (height source)
          = (dx, dy, destW, destH)"
    by (cases "letterbox rnd (width (canvas r)) (height (canvas r)) (width source)
          (height source)") auto
  from assms obtain c where c: "ctx r = Some c"
    by (cases "ctx r") (auto simp: render_def)
  from assms c l show ?thesis
    by (intro that [of c dx dy destW destH])
       (auto simp: render_def isReady_def Let_def split: if_splits)
qed

lemma example_render:
  "render (\<lambda>x. x) (\<lambda>op. False) example_source example_renderer =
     (True, example_renderer\<lparr>ctx := Some \<lparr>fillStyle = ''black'', imageSmoothingEnabled = True,
        imageSmoothingQuality = ''high'',
        drawn = [FillRect 0 0 100 50, DrawImage example_source 0 0 200 200 25 0 50 50]\<rparr>\<rparr>)"
  by (simp add: render_def letterbox_def js_round_def renderer_defs Let_def)

lemma js_round_positive: "0 < js_round x \<longleftrightarrow> 1 / 2 \<le> x"
  unfolding js_round_def by linarith

lemma render_result:
  "render rnd throws source r =
     (case ctx r of
        None \<Rightarrow> (False, r)
      | Some c \<Rightarrow>
          if \<not> isInitialized r \<or> width source = 0 \<or> height source = 0
               \<or> width (canvas r) = 0 \<or> height (canvas r) = 0
          then (False, r)
          else if throws (fill_call r) then (False, r\<lparr>ctx := Some (c\<lparr>fillStyle := ''black''\<rparr>)\<rparr>)
          else if throws (draw_call rnd source r)
            then (False, r\<lparr>ctx := Some (c\<lparr>fillStyle := ''black'',
                                         drawn := drawn c @ [fill_call r]\<rparr>)\<rparr>)
            else (True, r\<lparr>ctx := Some (c\<lparr>fillStyle := ''black'',
                      drawn := drawn c @ [fill_call r, draw_call rnd source r]\<rparr>)\<rparr>))"
  by (auto simp: render_def isReady_def fill_call_def draw_call_def Let_def
           split: option.splits prod.splits)

lemmas narrow_defs =
  narrow_renderer_def thin_source_def exact_def never_throws_def blank_context_def
  new_renderer_def initialize_def isReady_def

text \<open>
  Claim C9, as stated: \<open>render\<close> returns true only when a frame was actually drawn. On a
  canvas of 10 by 1, a source of 1 by 3 is scaled by a third: its width rounds to 0, and
  \<open>render\<close> returns true after a \<^verbatim>\<open>drawImage\<close> into a rectangle of width 0, which paints
  nothing of the frame.
\<close>

theorem empty_frame_counterexample:
  "fst (render exact never_throws thin_source narrow_renderer)
   \<and> letterbox exact (width (canvas narrow_renderer)) (height (canvas narrow_renderer))
       (width thin_source) (height thin_source) = (5, 0, 0, 1)
   \<and> drawn (the (ctx (snd (render exact never_throws thin_source narrow_renderer))))
       = [FillRect 0 0 10 1, DrawImage thin_source 0 0 1 3 5 0 0 1]"
  by (simp add: render_def letterbox_def js_round_def narrow_defs Let_def)

text \<open>
  Claim C9, amended. \<open>render\<close> returns a boolean whatever the drawing calls do. It returns
  false and leaves the renderer as it was, nothing drawn, when the renderer is not ready,
  the context is absent, a dimension of the source is zero or a dimension of the canvas
  is zero; so it does on a disposed renderer and on one whose \<^verbatim>\<open>getContext\<close> gave null or
  threw. It returns true exactly when the renderer is ready, the four dimensions are not
  zero and neither drawing call throws; the context has then carried out the fill of the
  canvas and the \<^verbatim>\<open>drawImage\<close> of the whole source into the letterbox rectangle, and
  nothing else. A false result never comes with a \<^verbatim>\<open>drawImage\<close>. The rectangle has
  a positive width (height) exactly when the scaled width (height) of the source, as
  computed, is at least one half: below that it is empty and no pixel of the frame is
  painted.
\<close>

theorem render_outcome:
  "(\<not> isReady r \<or> ctx r = None \<or> width source = 0 \<or> height source = 0
      \<or> width (canvas r) = 0 \<or> height (canvas r) = 0
      \<longrightarrow> render rnd throws source r = (False, r))
   \<and> render rnd throws source (dispose r) = (False, dispose r)
   \<and> render rnd throws source (new_renderer cv GetContext_null)
       = (False, new_renderer cv GetContext_null)
   \<and> render rnd throws source (new_renderer cv GetContext_throws)
       = (False, new_renderer cv GetContext_throws)
   \<and> (fst (render rnd throws source r) \<longleftrightarrow>
        isReady r \<and> 0 < width source \<and> 0 < height source
      \<and> 0 < width (canvas r) \<and> 0 < height (canvas r)
      \<and> \<not> throws (fill_call r) \<and> \<not> throws (draw_call rnd source r))
   \<and> (fst (render rnd throws source r) \<longrightarrow>
        (\<exists>c. ctx r = Some c
           \<and> snd (render rnd throws source r) =
               r\<lparr>ctx := Some (c\<lparr>fillStyle := ''black'',
                      drawn := drawn c @ [fill_call r, draw_call rnd source r]\<rparr>)\<rparr>))
   \<and> (\<not> fst (render rnd throws source r) \<longrightarrow>
        (\<forall>c. ctx r = Some c \<longrightarrow>
           (\<exists>c'. ctx (snd (render rnd throws source r)) = Some c'
               \<and> (drawn c' = drawn c \<or> drawn c' = drawn c @ [fill_call r]))))
   \<and> (case letterbox rnd (width (canvas r)) (height (canvas r)) (width source) (height source) of
        (dx, dy, destW, destH) \<Rightarrow>
          (0 < destW \<longleftrightarrow>
             1 / 2 \<le> rnd (real (width source) *
                          min (rnd (real (width (canvas r)) / real (width source)))
                              (rnd (real (height (canvas r)) / real (height source)))))
        \<and> (0 < destH \<longleftrightarrow>
             1 / 2 \<le> rnd (real (height source) *
                          min (rnd (real (width (canvas r)) / real (width source)))
                              (rnd (real (height (canvas r)) / real (height source))))))"
proof (intro conjI)
  show "\<not> isReady r \<or> ctx r = None \<or> width source = 0 \<or> height source = 0
      \<or> width (canvas r) = 0 \<or> height (canvas r) = 0
      \<longrightarrow> render rnd throws source r = (False, r)"
    by (auto simp: render_result isReady_def split: option.splits)
  show "render rnd throws source (dispose r) = (False, dispose r)"
    by (simp add: render_result dispose_def)
  show "render rnd throws source (new_renderer cv GetContext_null)
       = (False, new_renderer cv GetContext_null)"
    by (simp add: render_result new_renderer_def initialize_def)
  show "render rnd throws source (new_renderer cv GetContext_throws)
       = (False, new_renderer cv GetContext_throws)"
    by (simp add: render_result new_renderer_def initialize_def)
  show "fst (render rnd throws source r) \<longleftrightarrow>
        isReady r \<and> 0 < width source \<and> 0 < height source
      \<and> 0 < width (canvas r) \<and> 0 < height (canvas r)
      \<and> \<not> throws (fill_call r) \<and> \<not> throws (draw_call rnd source r)"
    by (auto simp: render_result isReady_def split: option.splits)
  show "fst (render rnd throws source r) \<longrightarrow>
        (\<exists>c. ctx r = Some c
           \<and> snd (render rnd throws source r) =
               r\<lparr>ctx := Some (c\<lparr>fillStyle := ''black'',
                      drawn := drawn c @ [fill_call r, draw_call rnd source r]\<rparr>)\<rparr>)"
    by (auto simp: render_result split: option.splits if_splits)
  show "\<not> fst (render rnd throws source r) \<longrightarrow>
        (\<forall>c. ctx r = Some c \<longrightarrow>
           (\<exists>c'. ctx (snd (render rnd throws source r)) = Some c'
               \<and> (drawn c' = drawn c \<or> drawn c' = drawn c @ [fill_call r])))"
    by (auto simp: render_result split: option.splits if_splits)
  show "case letterbox rnd (width (canvas r)) (height (canvas r)) (width source) (height source) of
        (dx, dy, destW, destH) \<Rightarrow>
          (0 < destW \<longleftrightarrow>
             1 / 2 \<le> rnd (real (width source) *
                          min (rnd (real (width (canvas r)) / real (width source)))
                              (rnd (real (height (canvas r)) / real (height source)))))
        \<and> (0 < destH \<longleftrightarrow>
             1 / 2 \<le> rnd (real (height source) *
                          min (rnd (real (width (canvas r)) / real (width source)))
                              (rnd (real (height (canvas r)) / real (height source)))))"
    by (simp add: letterbox_def Let_def js_round_positive)
qed

theorem render_outcome_witness:
  "width empty_source = 0
   \<and> render exact never_throws empty_source example_renderer = (False, example_renderer)
   \<and> fst (render exact never_throws example_source example_renderer)
   \<and> draw_call exact example_source example_renderer
       = DrawImage example_source 0 0 200 200 25 0 50 50
   \<and> (\<exists>c. ctx example_renderer = Some c
         \<and> snd (render exact never_throws example_source example_renderer) =
             example_renderer\<lparr>ctx := Some (c\<lparr>fillStyle := ''black'',
                drawn := drawn c @ [fill_call example_renderer,
                                    draw_call exact example_source example_renderer]\<rparr>)\<rparr>)
   \<and> \<not> fst (render exact (\<lambda>op. True) example_source example_renderer)"
proof -
  have z: "width empty_source = 0"
    by (simp add: empty_source_def)
  have rdy: "isReady example_renderer \<and> 0 < width example_source \<and> 0 < height example_source
      \<and> 0 < width (canvas example_renderer) \<and> 0 < height (canvas example_renderer)
      \<and> \<not> never_throws (fill_call example_renderer)
      \<and> \<not> never_throws (draw_call exact example_source example_renderer)"
    by (simp add: renderer_defs never_throws_def)
  have d: "draw_call exact example_source example_renderer
       = DrawImage example_source 0 0 200 200 25 0 50 50"
    by (simp add: draw_call_def letterbox_def js_round_def renderer_defs exact_def Let_def)
  have thr: "(\<lambda>op. True) (fill_call example_renderer)"
    by simp
  from render_outcome [of example_renderer empty_source exact never_throws]
       render_outcome [of example_renderer example_source exact never_throws]
       render_outcome [of example_renderer example_source exact "\<lambda>op. True"] z rdy d thr
  show ?thesis by simp
qed

subsection \<open>The letterbox\<close>

lemma pow2:
  "(2::real) ^ 33 = 8589934592" "(2::real) ^ 53 = 9007199254740992"
  "(2::real) ^ 64 = 18446744073709551616" "(2::real) ^ 65 = 36893488147419103232"
  by simp_all

lemma rounding_relative:
  assumes "double_rounding rnd" and "1 / 2 ^ 64 \<le> x" and "x \<le> 2 ^ 65"
  shows "x - x / 2 ^ 53 \<le> rnd x" and "rnd x \<le> x + x / 2 ^ 53"
proof -
  have "0 < x" using assms(2) by (rule less_le_trans [rotated]) simp
  with assms have "\<bar>rnd x - x\<bar> \<le> x / 2 ^ 53"
    by (auto simp: double_rounding_def dest!: spec [of _ x])
  then show "x - x / 2 ^ 53 \<le> rnd x" and "rnd x \<le> x + x / 2 ^ 53"
    by linarith+
qed

lemma rounding_half:
  assumes "double_rounding rnd" and "\<bar>k\<bar> \<le> 2 ^ 33"
  shows "rnd (of_int k / 2) = of_int k / 2"
  using assms by (simp add: double_rounding_def)

lemma rounding_int:
  assumes "double_rounding rnd" and "\<bar>k\<bar> \<le> 2 ^ 32"
  shows "rnd (of_int k) = of_int k"
proof -
  have "\<bar>2 * k\<bar> \<le> 2 ^ 33" using assms(2) by simp
  from rounding_half [OF assms(1) this] show ?thesis by simp
qed

lemma dimension_real:
  fixes c :: nat
  assumes "0 < c" and "c < 2 ^ 32"
  shows "1 \<le> real c" and "real c < 4294967296"
proof -
  from assms(1) show "1 \<le> real c" by (simp add: Suc_le_eq)
  from assms(2) have "real c < real (2 ^ 32)" by (simp only: of_nat_less_iff)
  then show "real c < 4294967296" by simp
qed

lemma quotient_bounds:
  fixes c s :: nat
  assumes "0 < c" and "c < 2 ^ 32" and "0 < s" and "s < 2 ^ 32"
  shows "1 / 4294967296 \<le> real c / real s" and "real c / real s \<le> 4294967296"
proof -
  note c = dimension_real [OF assms(1,2)] and s = dimension_real [OF assms(3,4)]
  have "real s \<le> 4294967296 * real c"
    using c s by linarith
  with s show "1 / 4294967296 \<le> real c / real s"
    by (simp add: field_simps)
  have "real c \<le> 4294967296 * real s"
    using c s by linarith
  with s show "real c / real s \<le> 4294967296"
    by (simp add: field_simps)
qed

lemma scale_factor_bounds:
  fixes c s :: nat
  assumes "double_rounding rnd" and "0 < c" and "c < 2 ^ 32" and "0 < s" and "s < 2 ^ 32"
  shows "1 / 2 ^ 33 \<le> rnd (real c / real s)"
    and "rnd (real c / real s) \<le> real c / real s + real c / real s / 2 ^ 53"
proof -
  define q where "q = real c / real s"
  have q: "1 / 4294967296 \<le> q" "q \<le> 4294967296"
    using quotient_bounds [OF assms(2-5)] by (simp_all only: q_def)
  have r: "1 / 2 ^ 64 \<le> q" "q \<le> 2 ^ 65"
    using q unfolding pow2 by linarith+
  note rel = rounding_relative [OF assms(1) r]
  from rel(2) show "rnd (real c / real s) \<le> real c / real s + real c / real s / 2 ^ 53"
    by (simp only: q_def)
  from rel(1) q(1) have "1 / 2 ^ 33 \<le> rnd q"
    unfolding pow2 by linarith
  then show "1 / 2 ^ 33 \<le> rnd (real c / real s)"
    by (simp only: q_def)
qed

lemma js_round_near: "\<bar>of_int (js_round x) - x\<bar> \<le> 1 / 2"
  unfolding js_round_def by linarith

lemma dest_bounds:
  fixes c s :: nat and scale :: real
  assumes dr: "double_rounding rnd" and c: "0 < c" "c < 2 ^ 32" and s: "0 < s"
    and lo: "1 / 2 ^ 33 \<le> scale"
    and hi: "scale \<le> real c / real s + real c / real s / 2 ^ 53"
  shows "0 \<le> js_round (rnd (real s * scale))"
    and "js_round (rnd (real s * scale)) \<le> int c"
proof -
  let ?x = "real s * scale"
  note rc = dimension_real [OF c]
  have rs: "1 \<le> real s" using s by (simp add: Suc_le_eq)
  have sp: "0 \<le> scale" using lo by (rule order_trans [rotated]) simp
  have "1 * scale \<le> real s * scale"
    using rs sp by (rule mult_right_mono)
  with lo have x_lo: "1 / 2 ^ 33 \<le> ?x" by linarith
  have "?x \<le> real s * (real c / real s + real c / real s / 2 ^ 53)"
    using hi rs by (intro mult_left_mono) simp_all
  also have "\<dots> = real c + real c / 2 ^ 53"
    using rs by (simp add: distrib_left)
  finally have x_hi: "?x \<le> real c + real c / 2 ^ 53" .
  have r: "1 / 2 ^ 64 \<le> ?x" "?x \<le> 2 ^ 65"
    using x_lo x_hi rc unfolding pow2 by linarith+
  note rel = rounding_relative [OF dr r]
  from rel(1) x_lo have "0 \<le> rnd ?x" unfolding pow2 by linarith
  then show "0 \<le> js_round (rnd ?x)"
    by (simp add: js_round_def)
  from rel(2) x_hi rc have "rnd ?x + 1 / 2 < real c + 1"
    unfolding pow2 by linarith
  then show "js_round (rnd ?x) \<le> int c"
    by (simp add: js_round_def floor_le_iff)
qed

lemma centre:
  fixes c :: nat and d :: int
  assumes dr: "double_rounding rnd" and c: "c < 2 ^ 32" and d: "0 \<le> d" "d \<le> int c"
  shows "js_round (rnd (rnd (real c - of_int d) / 2)) = js_round ((real c - of_int d) / 2)"
    and "0 \<le> js_round ((real c - of_int d) / 2)"
    and "js_round ((real c - of_int d) / 2) + d \<le> int c"
proof -
  let ?k = "int c - d"
  have k: "0 \<le> ?k" "?k \<le> 2 ^ 32" using c d by simp_all
  have e: "real c - of_int d = of_int ?k" by simp
  have "rnd (of_int ?k) = of_int ?k"
    using k by (intro rounding_int [OF dr]) simp
  moreover have "rnd (of_int ?k / 2) = of_int ?k / 2"
    using k by (intro rounding_half [OF dr]) simp
  ultimately show "js_round (rnd (rnd (real c - of_int d) / 2)) = js_round ((real c - of_int d) / 2)"
    by (simp only: e)
  have "of_int ?k / 2 + 1 / 2 = (of_int (?k + 1) :: real) / of_int 2" by simp
  then have "js_round (of_int ?k / 2) = (?k + 1) div 2"
    unfolding js_round_def by (simp only: floor_divide_of_int_eq)
  then have j: "js_round ((real c - of_int d) / 2) = (?k + 1) div 2"
    by (simp only: e)
  from k(1) show "0 \<le> js_round ((real c - of_int d) / 2)"
    unfolding j by presburger
  from k(1) show "js_round ((real c - of_int d) / 2) + d \<le> int c"
    unfolding j by presburger
qed

text \<open>
  Claim C10. Canvas dimensions are below \<open>2\<^sup>3\<^sup>2\<close>. When \<open>render\<close> returns true, the
  rectangle of its \<^verbatim>\<open>drawImage\<close> comes from the one scale, the smaller of the two quotients
  of canvas by source: its width and height are that scale times the source's, each
  rounded to an integer (so within a half of it); it lies inside the canvas; and its
  offsets are the rounded halves of what the canvas has left over.
\<close>

theorem render_letterbox:
  assumes dr: "double_rounding rnd"
    and cv: "width (canvas r) < 2 ^ 32" "height (canvas r) < 2 ^ 32"
    and src: "width source < 2 ^ 32" "height source < 2 ^ 32"
    and ok: "fst (render rnd throws source r)"
  shows "\<exists>c scale dx dy destW destH.
           ctx r = Some c
         \<and> ctx (snd (render rnd throws source r)) =
             Some (c\<lparr>fillStyle := ''black'',
                    drawn := drawn c @
                      [FillRect 0 0 (int (width (canvas r))) (int (height (canvas r))),
                       DrawImage source 0 0 (int (width source)) (int (height source))
                         dx dy destW destH]\<rparr>)
         \<and> scale = min (rnd (real (width (canvas r)) / real (width source)))
                       (rnd (real (height (canvas r)) / real (height source)))
         \<and> destW = js_round (rnd (real (width source) * scale))
         \<and> destH = js_round (rnd (real (height source) * scale))
         \<and> \<bar>of_int destW - rnd (real (width source) * scale)\<bar> \<le> 1 / 2
         \<and> \<bar>of_int destH - rnd (real (height source) * scale)\<bar> \<le> 1 / 2
         \<and> 0 \<le> dx \<and> 0 \<le> dy
         \<and> dx + destW \<le> int (width (canvas r))
         \<and> dy + destH \<le> int (height (canvas r))
         \<and> dx = js_round ((real (width (canvas r)) - of_int destW) / 2)
         \<and> dy = js_round ((real (height (canvas r)) - of_int destH) / 2)"
proof -
  let ?cw = "width (canvas r)" and ?ch = "height (canvas r)"
  let ?sw = "width source" and ?sh = "height source"
  from ok obtain c dx dy destW destH where
    c: "ctx r = Some c" and pos: "0 < ?sw" "0 < ?sh" "0 < ?cw" "0 < ?ch"
    and l: "letterbox rnd ?cw ?ch ?sw ?sh = (dx, dy, destW, destH)"
    and r': "snd (render rnd throws source r) =
           r\<lparr>ctx := Some (c\<lparr>fillStyle := ''black'',
                  drawn := drawn c @
                    [FillRect 0 0 (int ?cw) (int ?ch),
                     DrawImage source 0 0 (int ?sw) (int ?sh) dx dy destW destH]\<rparr>)\<rparr>"
    by (rule render_drawn)
  define scale where
    "scale = min (rnd (real ?cw / real ?sw)) (rnd (real ?ch / real ?sh))"
  note a = scale_factor_bounds [OF dr pos(3) cv(1) pos(1) src(1)]
  note b = scale_factor_bounds [OF dr pos(4) cv(2) pos(2) src(2)]
  have lo: "1 / 2 ^ 33 \<le> scale"
    using a(1) b(1) by (simp add: scale_def)
  have hw: "scale \<le> real ?cw / real ?sw + real ?cw / real ?sw / 2 ^ 53"
    using a(2) unfolding scale_def by (rule min.coboundedI1)
  have hh: "scale \<le> real ?ch / real ?sh + real ?ch / real ?sh / 2 ^ 53"
    using b(2) unfolding scale_def by (rule min.coboundedI2)
  from l have dw: "destW = js_round (rnd (real ?sw * scale))"
    and dh: "destH = js_round (rnd (real ?sh * scale))"
    and dx: "dx = js_round (rnd (rnd (real ?cw - of_int destW) / 2))"
    and dy: "dy = js_round (rnd (rnd (real ?ch - of_int destH) / 2))"
    by (auto simp: letterbox_def Let_def scale_def)
  note w = dest_bounds [OF dr pos(3) cv(1) pos(1) lo hw, folded dw]
  note h = dest_bounds [OF dr pos(4) cv(2) pos(2) lo hh, folded dh]
  note x = centre [OF dr cv(1) w, folded dx]
  note y = centre [OF dr cv(2) h, folded dy]
  have nw: "\<bar>of_int destW - rnd (real ?sw * scale)\<bar> \<le> 1 / 2"
    unfolding dw by (rule js_round_near)
  have nh: "\<bar>of_int destH - rnd (real ?sh * scale)\<bar> \<le> 1 / 2"
    unfolding dh by (rule js_round_near)
  from x(2,3) x(1) have cx: "0 \<le> dx" "dx + destW \<le> int ?cw"
    by simp_all
  from y(2,3) y(1) have cy: "0 \<le> dy" "dy + destH \<le> int ?ch"
    by simp_all
  have cr: "ctx (snd (render rnd throws source r)) =
             Some (c\<lparr>fillStyle := ''black'',
                    drawn := drawn c @
                      [FillRect 0 0 (int ?cw) (int ?ch),
                       DrawImage source 0 0 (int ?sw) (int ?sh) dx dy destW destH]\<rparr>)"
    unfolding r' by simp
  have ex: "dx = js_round ((real ?cw - of_int destW) / 2)"
    using x(1) by simp
  have ey: "dy = js_round ((real ?ch - of_int destH) / 2)"
    using y(1) by simp
  show ?thesis
    by (intro exI [of _ c] exI [of _ scale] exI [of _ dx] exI [of _ dy]
          exI [of _ destW] exI [of _ destH] conjI)
       (fact c cr scale_def dw dh nw nh cx cy ex ey)+
qed

theorem render_letterbox_witness:
  "double_rounding (\<lambda>x. x)
   \<and> width (canvas example_renderer) < 2 ^ 32 \<and> height (canvas example_renderer) < 2 ^ 32
   \<and> width example_source < 2 ^ 32 \<and> height example_source < 2 ^ 32
   \<and> fst (render (\<lambda>x. x) (\<lambda>op. False) example_source example_renderer)
   \<and> drawn (the (ctx (snd (render (\<lambda>x. x) (\<lambda>op. False) example_source example_renderer))))
       = [FillRect 0 0 100 50, DrawImage example_source 0 0 200 200 25 0 50 50]
   \<and> (\<exists>c scale dx dy destW destH.
         ctx example_renderer = Some c
       \<and> ctx (snd (render (\<lambda>x. x) (\<lambda>op. False) example_source example_renderer)) =
           Some (c\<lparr>fillStyle := ''black'',
                  drawn := drawn c @
                    [FillRect 0 0 (int (width (canvas example_renderer)))
                       (int (height (canvas example_renderer))),
                     DrawImage example_source 0 0 (int (width example_source))
                       (int (height example_source)) dx dy destW destH]\<rparr>)
       \<and> scale = min (real (width (canvas example_renderer)) / real (width example_source))
                     (real (height (canvas example_renderer)) / real (height example_source))
       \<and> destW = js_round (real (width example_source) * scale)
       \<and> destH = js_round (real (height example_source) * scale)
       \<and> \<bar>of_int destW - real (width example_source) * scale\<bar> \<le> 1 / 2
       \<and> \<bar>of_int destH - real (height example_source) * scale\<bar> \<le> 1 / 2
       \<and> 0 \<le> dx \<and> 0 \<le> dy
       \<and> dx + destW \<le> int (width (canvas example_renderer))
       \<and> dy + destH \<le> int (height (canvas example_renderer))
       \<and> dx = js_round ((real (width (canvas example_renderer)) - of_int destW) / 2)
       \<and> dy = js_round ((real (height (canvas example_renderer)) - of_int destH) / 2))"
proof -
  have dr: "double_rounding (\<lambda>x. x)"
    by (simp add: double_rounding_def)
  have cv: "width (canvas example_renderer) < 2 ^ 32" "height (canvas example_renderer) < 2 ^ 32"
    by (simp_all add: renderer_defs)
  have src: "width example_source < 2 ^ 32" "height example_source < 2 ^ 32"
    by (simp_all add: renderer_defs)
  have t: "fst (render (\<lambda>x. x) (\<lambda>op. False) example_source example_renderer)"
    by (simp add: example_render)
  have d: "drawn (the (ctx (snd (render (\<lambda>x. x) (\<lambda>op. False) example_source example_renderer))))
       = [FillRect 0 0 100 50, DrawImage example_source 0 0 200 200 25 0 50 50]"
    by (simp add: example_render)
  from render_letterbox [OF dr cv src t] dr cv src t d show ?thesis
    by (intro conjI) assumption+
qed

end
